theory Spec2Isabelle
  imports Complex_Main
begin

section \<open>Python values and exceptions\<close>

text \<open>
  A decoded JSON document, as \<^verbatim>\<open>response.json()\<close> hands it to the client: Python's
  \<^verbatim>\<open>None\<close> is \<open>JNull\<close>, a \<^verbatim>\<open>dict\<close> is an association list in insertion order (keys are
  unique, lookup takes the first binding). A number is an \<^verbatim>\<open>int\<close> or, when it has a
  fraction or an exponent, a \<^verbatim>\<open>float\<close>, kept here by its value: the client only ever tests
  a decoded number for truth and equality.
\<close>

datatype json =
    JNull
  | JBool bool
  | JInt int
  | JFloat rat
  | JStr string
  | JArr "json list"
  | JObj "(string \<times> json) list"

text \<open>
  The exceptions the modelled code raises or lets through. The four API errors carry
  \<^verbatim>\<open>(status_code, message, error_code)\<close> as \<^verbatim>\<open>KalshiAPIError.__init__\<close> stores them;
  \<open>RateLimitError\<close> carries the arguments of its one construction site in
  \<^verbatim>\<open>AsyncKalshiClient._request\<close>: status, message, method, endpoint.
\<close>

datatype exn =
    is_KalshiAPIError: KalshiAPIError (exn_status: int) (exn_message: json) (exn_code: json)
  | is_AuthenticationError: AuthenticationError (exn_status: int) (exn_message: json) (exn_code: json)
  | is_InsufficientFundsError: InsufficientFundsError (exn_status: int) (exn_message: json) (exn_code: json)
  | is_ResourceNotFoundError: ResourceNotFoundError (exn_status: int) (exn_message: json) (exn_code: json)
  | is_RateLimitError: RateLimitError (exn_status: int) (exn_text: string) (exn_method: string) (exn_endpoint: string)
  | TimeoutException
  | ConnectError
  | TransportFailure
  | ValueError
  | AttributeError
  | TypeError
  | IndexError
  | UnboundLocalError

text \<open>Truth value testing, as \<^verbatim>\<open>not x\<close> and \<^verbatim>\<open>x or y\<close> apply it.\<close>

fun truthy :: "json \<Rightarrow> bool" where
  "truthy JNull = False"
| "truthy (JBool b) = b"
| "truthy (JInt i) = (i \<noteq> 0)"
| "truthy (JFloat x) = (x \<noteq> 0)"
| "truthy (JStr s) = (s \<noteq> [])"
| "truthy (JArr xs) = (xs \<noteq> [])"
| "truthy (JObj kvs) = (kvs \<noteq> [])"

definition py_or :: "json \<Rightarrow> json \<Rightarrow> json" where
  "py_or a b = (if truthy a then a else b)"

text \<open>\<^verbatim>\<open>d.get(key, default)\<close>; \<^verbatim>\<open>d.get(key)\<close> is \<open>dict_get d key JNull\<close>.\<close>

definition dict_get :: "(string \<times> json) list \<Rightarrow> string \<Rightarrow> json \<Rightarrow> json" where
  "dict_get d key dflt = (case map_of d key of None \<Rightarrow> dflt | Some v \<Rightarrow> v)"

text \<open>A list comprehension whose element expression may raise: the first exception wins.\<close>

fun collect :: "('a \<Rightarrow> exn + 'b) \<Rightarrow> 'a list \<Rightarrow> exn + 'b list" where
  "collect f [] = Inr []"
| "collect f (x # xs) =
     (case f x of
        Inl e \<Rightarrow> Inl e
      | Inr y \<Rightarrow> (case collect f xs of Inl e \<Rightarrow> Inl e | Inr ys \<Rightarrow> Inr (y # ys)))"

text \<open>\<^verbatim>\<open>sep.join(xs)\<close>\<close>

fun join_with :: "string \<Rightarrow> string list \<Rightarrow> string" where
  "join_with sep [] = []"
| "join_with sep [x] = x"
| "join_with sep (x # y # ys) = x @ sep @ join_with sep (y # ys)"

section \<open>Library functions the client calls\<close>

text \<open>
  The parts of the libraries below the client whose result is not fixed by the client's
  own code are parameters: \<open>netloc_ok\<close> is the validation \<^verbatim>\<open>urlsplit\<close> applies to a
  non-empty network location (balanced brackets, a well-formed bracketed host, NFKC),
  \<open>uses_params\<close> the table \<^verbatim>\<open>urllib.parse.uses_params\<close>, \<open>json_dumps\<close> the compact encoder
  \<^verbatim>\<open>json.dumps(_, separators=(",", ":"))\<close>, and \<open>urlencode\<close> is \<^verbatim>\<open>urllib.parse.urlencode\<close>
  on a dictionary.
\<close>

record pylib =
  netloc_ok :: "string \<Rightarrow> bool"
  uses_params :: "string list"
  json_dumps :: "json \<Rightarrow> string"
  urlencode :: "(string \<times> json) list \<Rightarrow> string"

subsection \<open>\<^verbatim>\<open>str\<close> of an integer\<close>

definition digit_char :: "nat \<Rightarrow> char" where
  "digit_char d = ''0123456789'' ! d"

fun str_nat :: "nat \<Rightarrow> string" where
  "str_nat n = (if n < 10 then [digit_char n] else str_nat (n div 10) @ [digit_char (n mod 10)])"

declare str_nat.simps [simp del]

definition str_int :: "int \<Rightarrow> string" where
  "str_int i = (if i < 0 then CHR ''-'' # str_nat (nat (- i)) else str_nat (nat i))"

subsection \<open>\<^verbatim>\<open>urlparse(url).path\<close>\<close>

definition c0_control_or_space :: "char \<Rightarrow> bool" where
  "c0_control_or_space c = ((of_char c :: nat) \<le> 32)"

definition unsafe_url_byte :: "char \<Rightarrow> bool" where
  "unsafe_url_byte c = ((of_char c :: nat) = 9 \<or> (of_char c :: nat) = 13 \<or> (of_char c :: nat) = 10)"

definition ascii_upper :: "char \<Rightarrow> bool" where
  "ascii_upper c = (65 \<le> (of_char c :: nat) \<and> (of_char c :: nat) \<le> 90)"

definition ascii_lower :: "char \<Rightarrow> bool" where
  "ascii_lower c = (97 \<le> (of_char c :: nat) \<and> (of_char c :: nat) \<le> 122)"

definition ascii_digit :: "char \<Rightarrow> bool" where
  "ascii_digit c = (48 \<le> (of_char c :: nat) \<and> (of_char c :: nat) \<le> 57)"

definition scheme_char :: "char \<Rightarrow> bool" where
  "scheme_char c =
     (ascii_lower c \<or> ascii_upper c \<or> ascii_digit c \<or> c = CHR ''+'' \<or> c = CHR ''-'' \<or> c = CHR ''.'')"

definition lower_char :: "char \<Rightarrow> char" where
  "lower_char c = (if ascii_upper c then char_of ((of_char c :: nat) + 32) else c)"

text \<open>The first two steps of \<^verbatim>\<open>urlsplit\<close>: \<^verbatim>\<open>lstrip\<close> of the C0 controls and the space, then
  every tab, carriage return and line feed removed.\<close>

definition clean_url :: "string \<Rightarrow> string" where
  "clean_url url = filter (\<lambda>c. \<not> unsafe_url_byte c) (dropWhile c0_control_or_space url)"

text \<open>\<^verbatim>\<open>i = url.find(':')\<close>, and the scheme taken off when \<^verbatim>\<open>i > 0\<close>, the first character is
  an ASCII letter and \<^verbatim>\<open>url[:i]\<close> has scheme characters only. The result is the scheme
  and the rest of the URL.\<close>

definition split_scheme :: "string \<Rightarrow> string \<times> string" where
  "split_scheme url =
     (let pre = takeWhile (\<lambda>c. c \<noteq> CHR '':'') url in
      if CHR '':'' \<in> set url \<and> pre \<noteq> [] \<and> (ascii_lower (hd pre) \<or> ascii_upper (hd pre))
           \<and> list_all scheme_char pre
      then (map lower_char pre, drop (length pre + 1) url)
      else ([], url))"

definition netloc_delim :: "char \<Rightarrow> bool" where
  "netloc_delim c = (c = CHR ''/'' \<or> c = CHR ''?'' \<or> c = CHR ''#'')"

text \<open>\<^verbatim>\<open>_splitparams(url)[0]\<close>: the path up to the first \<^verbatim>\<open>;\<close> of its last segment.\<close>

definition splitparams_path :: "string \<Rightarrow> string" where
  "splitparams_path url =
     (if CHR ''/'' \<in> set url then
        (let seg = rev (takeWhile (\<lambda>c. c \<noteq> CHR ''/'') (rev url));
             dir = take (length url - length seg) url
         in if CHR '';'' \<in> set seg then dir @ takeWhile (\<lambda>c. c \<noteq> CHR '';'') seg else url)
      else if CHR '';'' \<in> set url then takeWhile (\<lambda>c. c \<noteq> CHR '';'') url
      else butlast url)"

definition urlparse_path :: "pylib \<Rightarrow> string \<Rightarrow> exn + string" where
  "urlparse_path L url0 =
     (let (scheme, url1) = split_scheme (clean_url url0);
          (netloc, url2) =
             (if take 2 url1 = ''//''
              then (takeWhile (\<lambda>c. \<not> netloc_delim c) (drop 2 url1),
                    dropWhile (\<lambda>c. \<not> netloc_delim c) (drop 2 url1))
              else ([], url1));
          url3 = takeWhile (\<lambda>c. c \<noteq> CHR ''#'') url2;
          url4 = takeWhile (\<lambda>c. c \<noteq> CHR ''?'') url3
      in if netloc \<noteq> [] \<and> \<not> netloc_ok L netloc then Inl ValueError
         else if scheme \<in> set (uses_params L) \<and> CHR '';'' \<in> set url4
              then Inr (splitparams_path url4)
         else Inr url4)"

section \<open>Request signing (kalshi\_api/client.py)\<close>

text \<open>
  \<^verbatim>\<open>private_key.sign(message, PSS(MGF1(SHA256), MAX_LENGTH), SHA256)\<close> is modelled symbolically:
  a signature is the term built from the key, the salt the padding draws and the signed
  message, and nothing else is known about it.
\<close>

datatype signature = RSA_PSS_SHA256 nat nat string

text \<open>A header value: text, or the base64 text of a signature.\<close>

datatype hval = Text string | Base64 signature

record KalshiClient =
  api_key_id :: string
  private_key :: nat
  api_base :: string

text \<open>The message that is signed: \<^verbatim>\<open>f"{timestamp}{method}{path}"\<close>.\<close>

definition sign_message :: "string \<Rightarrow> string \<Rightarrow> string \<Rightarrow> string" where
  "sign_message timestamp method path = timestamp @ method @ path"

text \<open>\<open>now_ms\<close> is \<^verbatim>\<open>int(time.time() * 1000)\<close> and \<open>salt\<close> the randomness of this signing.\<close>

definition sign_request :: "KalshiClient \<Rightarrow> int \<Rightarrow> nat \<Rightarrow> string \<Rightarrow> string \<Rightarrow> string \<times> hval" where
  "sign_request c now_ms salt method path =
     (let timestamp = str_int now_ms;
          message = sign_message timestamp method path;
          signature = RSA_PSS_SHA256 (private_key c) salt message
      in (timestamp, Base64 signature))"

definition get_headers ::
  "pylib \<Rightarrow> KalshiClient \<Rightarrow> int \<Rightarrow> nat \<Rightarrow> string \<Rightarrow> string \<Rightarrow> exn + (string \<times> hval) list" where
  "get_headers L c now_ms salt method endpoint =
     (case urlparse_path L endpoint of
        Inl e \<Rightarrow> Inl e
      | Inr path_without_query \<Rightarrow>
          (let full_path = ''/trade-api/v2'' @ path_without_query;
               (timestamp, signature) = sign_request c now_ms salt method full_path
           in Inr [(''Content-Type'', Text ''application/json''),
                   (''KALSHI-ACCESS-KEY'', Text (api_key_id c)),
                   (''KALSHI-ACCESS-SIGNATURE'', signature),
                   (''KALSHI-ACCESS-TIMESTAMP'', Text timestamp)]))"

section \<open>HTTP exchange\<close>

text \<open>
  A response as the client reads it. \<open>resp_json\<close> is the result of \<^verbatim>\<open>response.json()\<close>:
  \<open>None\<close> when the decoder raises (a \<^verbatim>\<open>ValueError\<close>).
\<close>

record response =
  status_code :: int
  resp_headers :: "(string \<times> string) list"
  resp_text :: string
  resp_json :: "json option"

text \<open>\<^verbatim>\<open>response.headers.get(name)\<close> of httpx: header names compare without regard to case,
  and the values of a header that occurs several times are joined by a comma and a
  space.\<close>

definition header_get :: "(string \<times> string) list \<Rightarrow> string \<Rightarrow> string option" where
  "header_get hs name =
     (let vals = map snd (filter (\<lambda>(k, v). map lower_char k = map lower_char name) hs)
      in if vals = [] then None else Some (join_with '', '' vals))"

record http_request =
  req_method :: string
  req_url :: string
  req_headers :: "(string \<times> hval) list"
  req_content :: "string option"
  req_timeout :: "rat option"

text \<open>What one call of the HTTP library does: it returns a response or raises.\<close>

datatype outcome = Returns response | Raises exn

text \<open>
  The world outside the client, as the sequence it presents: the outcome of the k-th HTTP
  call, the clock reading and the salt of the k-th signing (k counts the calls already
  sent).
\<close>

record env =
  transport :: "nat \<Rightarrow> outcome"
  clock :: "nat \<Rightarrow> int"
  salts :: "nat \<Rightarrow> nat"

section \<open>The synchronous client (kalshi\_api/client.py)\<close>

definition raise_for :: "int \<Rightarrow> json \<Rightarrow> json \<Rightarrow> exn" where
  "raise_for status message code =
     (if status = 401 \<or> status = 403 then AuthenticationError status message code
      else if status = 404 then ResourceNotFoundError status message code
      else if code = JStr ''insufficient_funds'' \<or> code = JStr ''insufficient_balance''
           then InsufficientFundsError status message code
      else KalshiAPIError status message code)"

text \<open>\<^verbatim>\<open>int(response.status_code or 500)\<close>: the status the library parsed, an integer, with
  zero read as 500.\<close>

definition effective_status :: "response \<Rightarrow> int" where
  "effective_status response = (if status_code response = 0 then 500 else status_code response)"

text \<open>The \<^verbatim>\<open>try\<close> block of \<^verbatim>\<open>_handle_response\<close>: the message and the code of an error body.
  Only the decoder's \<^verbatim>\<open>ValueError\<close> is caught; \<^verbatim>\<open>.get\<close> on a decoded value that is not a
  dictionary raises \<^verbatim>\<open>AttributeError\<close>, which is not.\<close>

definition error_fields :: "response \<Rightarrow> exn + json \<times> json" where
  "error_fields response =
     (case resp_json response of
        None \<Rightarrow> Inr (JStr (resp_text response), JNull)
      | Some (JObj error_data) \<Rightarrow>
          Inr (py_or (dict_get error_data ''message'' JNull)
                     (dict_get error_data ''error_message'' (JStr ''Unknown Error'')),
               py_or (dict_get error_data ''code'' JNull)
                     (dict_get error_data ''error_code'' JNull))
      | Some _ \<Rightarrow> Inl AttributeError)"

definition handle_response :: "response \<Rightarrow> exn + json" where
  "handle_response response =
     (let status = effective_status response in
      if status < 400 then
        (case resp_json response of None \<Rightarrow> Inl ValueError | Some body \<Rightarrow> Inr body)
      else
        (case error_fields response of
           Inl e \<Rightarrow> Inl e
         | Inr (message, code) \<Rightarrow> Inl (raise_for status message code)))"

text \<open>The state a call leaves behind: the requests sent so far, in order.\<close>

type_synonym sent = "http_request list"

text \<open>\<^verbatim>\<open>get\<close>, \<^verbatim>\<open>post\<close> and \<^verbatim>\<open>delete\<close> share one shape: URL, headers, one call, the handler.\<close>

definition sync_call ::
  "pylib \<Rightarrow> KalshiClient \<Rightarrow> env \<Rightarrow> string \<Rightarrow> string \<Rightarrow> string option \<Rightarrow> sent \<Rightarrow> (exn + json) \<times> sent" where
  "sync_call L c E method endpoint body st =
     (let url = api_base c @ endpoint; k = length st in
      case get_headers L c (clock E k) (salts E k) method endpoint of
        Inl e \<Rightarrow> (Inl e, st)
      | Inr headers \<Rightarrow>
          (let st' = st @ [\<lparr>req_method = method, req_url = url, req_headers = headers,
                            req_content = body, req_timeout = None\<rparr>]
           in case transport E k of
                Raises e \<Rightarrow> (Inl e, st')
              | Returns response \<Rightarrow> (handle_response response, st')))"

definition get :: "pylib \<Rightarrow> KalshiClient \<Rightarrow> env \<Rightarrow> string \<Rightarrow> sent \<Rightarrow> (exn + json) \<times> sent" where
  "get L c E endpoint st = sync_call L c E ''GET'' endpoint None st"

definition post ::
  "pylib \<Rightarrow> KalshiClient \<Rightarrow> env \<Rightarrow> string \<Rightarrow> json \<Rightarrow> sent \<Rightarrow> (exn + json) \<times> sent" where
  "post L c E endpoint data st = sync_call L c E ''POST'' endpoint (Some (json_dumps L data)) st"

definition delete ::
  "pylib \<Rightarrow> KalshiClient \<Rightarrow> env \<Rightarrow> string \<Rightarrow> sent \<Rightarrow> (exn + json) \<times> sent" where
  "delete L c E endpoint st = sync_call L c E ''DELETE'' endpoint None st"

section \<open>The asynchronous client (pykalshi/aclient.py)\<close>

text \<open>
  \<^verbatim>\<open>AsyncKalshiClient\<close> inherits from \<^verbatim>\<open>_BaseKalshiClient\<close> and reads the constant
  \<^verbatim>\<open>_RETRYABLE_STATUS_CODES\<close>; module \<^verbatim>\<open>pykalshi/_base.py\<close> is not among the sources, so
  what the request loop takes from it is a parameter: the set of retryable statuses, the
  header builder (at the k-th signing), the backoff, the update of the rate limiter from a
  response, and the response handler with its keyword arguments method, endpoint and
  request body. \<open>'l\<close> is the state of the rate limiter.
\<close>

record 'l base =
  RETRYABLE_STATUS_CODES :: "int \<Rightarrow> bool"
  base_get_headers :: "nat \<Rightarrow> string \<Rightarrow> string \<Rightarrow> exn + (string \<times> hval) list"
  compute_backoff :: "int \<Rightarrow> string option \<Rightarrow> rat"
  update_rate_limiter :: "response \<Rightarrow> 'l \<Rightarrow> 'l"
  base_handle_response :: "response \<Rightarrow> string \<Rightarrow> string \<Rightarrow> json option \<Rightarrow> exn + json"

text \<open>The constructor arguments the loop reads. \<open>rate_limiter\<close> is \<open>None\<close> or the limiter's
  \<^verbatim>\<open>acquire\<close>, which returns the time waited and changes the limiter.\<close>

record 'l AsyncKalshiClient =
  a_api_base :: string
  a_timeout :: rat
  max_retries :: int
  rate_limiter :: "('l \<Rightarrow> rat \<times> 'l) option"

text \<open>What a run leaves behind: the requests handed to the HTTP session, the
  \<^verbatim>\<open>asyncio.sleep\<close> durations, and the rate limiter.\<close>

record 'l astate =
  a_sent :: "http_request list"
  slept :: "rat list"
  limiter :: 'l

text \<open>One pass through the body of the \<^verbatim>\<open>for\<close> loop either leaves the function (\<open>Done\<close>:
  a \<^verbatim>\<open>return\<close> or a \<^verbatim>\<open>raise\<close>) or goes on to the next attempt (\<open>Retry\<close>, with the
  binding of \<^verbatim>\<open>response\<close> as it then is).\<close>

datatype 'l step = Done "exn + response" "'l astate" | Retry "response option" "'l astate"

definition attempt_once ::
  "'l base \<Rightarrow> 'l AsyncKalshiClient \<Rightarrow> (nat \<Rightarrow> outcome) \<Rightarrow> string \<Rightarrow> string \<Rightarrow> string option
     \<Rightarrow> int \<Rightarrow> response option \<Rightarrow> 'l astate \<Rightarrow> 'l step" where
  "attempt_once B c T method endpoint data attempt prev st =
     (let url = a_api_base c @ endpoint;
          st1 = (case rate_limiter c of
                   None \<Rightarrow> st
                 | Some acquire \<Rightarrow> st\<lparr>limiter := snd (acquire (limiter st))\<rparr>);
          k = length (a_sent st1)
      in case base_get_headers B k method endpoint of
           Inl e \<Rightarrow> Done (Inl e) st1
         | Inr headers \<Rightarrow>
             (let st2 = st1\<lparr>a_sent := a_sent st1 @
                           [\<lparr>req_method = method, req_url = url, req_headers = headers,
                             req_content = data, req_timeout = Some (a_timeout c)\<rparr>]\<rparr>
              in case T k of
                   Raises e \<Rightarrow>
                     if e = TimeoutException \<or> e = ConnectError then
                       (if attempt = max_retries c then Done (Inl e) st2
                        else Retry prev (st2\<lparr>slept := slept st2 @ [compute_backoff B attempt None]\<rparr>))
                     else Done (Inl e) st2
                 | Returns response \<Rightarrow>
                     (let st3 = st2\<lparr>limiter := update_rate_limiter B response (limiter st2)\<rparr> in
                      if \<not> RETRYABLE_STATUS_CODES B (status_code response) then Done (Inr response) st3
                      else if attempt = max_retries c then
                        (if status_code response = 429
                         then Done (Inl (RateLimitError 429 ''Rate limit exceeded after retries''
                                           method endpoint)) st3
                         else Done (Inr response) st3)
                      else Retry (Some response)
                             (st3\<lparr>slept := slept st3 @
                                [compute_backoff B attempt
                                   (header_get (resp_headers response) ''Retry-After'')]\<rparr>))))"

text \<open>\<^verbatim>\<open>for attempt in range(self.max_retries + 1)\<close>, and the \<^verbatim>\<open>return response\<close> after the loop,
  which finds \<^verbatim>\<open>response\<close> unbound when the loop never assigned it.\<close>

function request_loop ::
  "'l base \<Rightarrow> 'l AsyncKalshiClient \<Rightarrow> (nat \<Rightarrow> outcome) \<Rightarrow> string \<Rightarrow> string \<Rightarrow> string option
     \<Rightarrow> int \<Rightarrow> response option \<Rightarrow> 'l astate \<Rightarrow> (exn + response) \<times> 'l astate" where
  "request_loop B c T method endpoint data attempt prev st =
     (if attempt < max_retries c + 1 then
        (case attempt_once B c T method endpoint data attempt prev st of
           Done result st' \<Rightarrow> (result, st')
         | Retry prev' st' \<Rightarrow> request_loop B c T method endpoint data (attempt + 1) prev' st')
      else (case prev of
              None \<Rightarrow> (Inl UnboundLocalError, st)
            | Some response \<Rightarrow> (Inr response, st)))"
  by pat_completeness auto
termination
  by (relation "measure (\<lambda>(B, c, T, method, endpoint, data, attempt, prev, st).
                  nat (max_retries c + 1 - attempt))") auto

declare request_loop.simps [simp del]

definition request ::
  "'l base \<Rightarrow> 'l AsyncKalshiClient \<Rightarrow> (nat \<Rightarrow> outcome) \<Rightarrow> string \<Rightarrow> string \<Rightarrow> string option
     \<Rightarrow> 'l astate \<Rightarrow> (exn + response) \<times> 'l astate" where
  "request B c T method endpoint data st = request_loop B c T method endpoint data 0 None st"

text \<open>\<^verbatim>\<open>get\<close>, \<^verbatim>\<open>post\<close>, \<^verbatim>\<open>put\<close> and \<^verbatim>\<open>delete\<close>: the loop, then the handler.\<close>

definition handled ::
  "'l base \<Rightarrow> string \<Rightarrow> string \<Rightarrow> json option \<Rightarrow> (exn + response) \<times> 'l astate
     \<Rightarrow> (exn + json) \<times> 'l astate" where
  "handled B method endpoint request_body res =
     (case res of
        (Inl e, st) \<Rightarrow> (Inl e, st)
      | (Inr response, st) \<Rightarrow> (base_handle_response B response method endpoint request_body, st))"

definition aget ::
  "'l base \<Rightarrow> 'l AsyncKalshiClient \<Rightarrow> (nat \<Rightarrow> outcome) \<Rightarrow> string \<Rightarrow> 'l astate
     \<Rightarrow> (exn + json) \<times> 'l astate" where
  "aget B c T endpoint st = handled B ''GET'' endpoint None (request B c T ''GET'' endpoint None st)"


definition aput ::
  "pylib \<Rightarrow> 'l base \<Rightarrow> 'l AsyncKalshiClient \<Rightarrow> (nat \<Rightarrow> outcome) \<Rightarrow> string \<Rightarrow> json \<Rightarrow> 'l astate
     \<Rightarrow> (exn + json) \<times> 'l astate" where
  "aput L B c T endpoint data st =
     handled B ''PUT'' endpoint (Some data)
       (request B c T ''PUT'' endpoint (Some (json_dumps L data)) st)"


section \<open>The synchronous request pipeline (specification, section 4.3)\<close>









section \<open>The pagination driver (pykalshi/aclient.py)\<close>

text \<open>
  Dictionaries are objects: the caller's \<^verbatim>\<open>params\<close> and the copy \<^verbatim>\<open>dict(params)\<close> are two
  cells of a store, addressed by their position in it, and \<^verbatim>\<open>params["cursor"] = cursor\<close>
  writes into a cell. A dictionary keeps its keys in insertion order; an absent value is
  \<^verbatim>\<open>None\<close>, that is \<open>JNull\<close>.
\<close>

type_synonym pydict = "(string \<times> json) list"

type_synonym heap = "pydict list"

text \<open>\<^verbatim>\<open>d[key] = value\<close>: an existing key keeps its place, a new one goes last.\<close>

definition dict_set :: "pydict \<Rightarrow> string \<Rightarrow> json \<Rightarrow> pydict" where
  "dict_set d key v =
     (if key \<in> fst ` set d then map (\<lambda>(k, w). if k = key then (k, v) else (k, w)) d
      else d @ [(key, v)])"

text \<open>What \<^verbatim>\<open>list.extend\<close> takes from its argument: the elements of a list, the characters
  of a string, the keys of a dictionary; anything else is not iterable.\<close>

fun py_iter :: "json \<Rightarrow> exn + json list" where
  "py_iter (JArr xs) = Inr xs"
| "py_iter (JStr s) = Inr (map (\<lambda>c. JStr [c]) s)"
| "py_iter (JObj kvs) = Inr (map (\<lambda>(k, v). JStr k) kvs)"
| "py_iter _ = Inl TypeError"

text \<open>The endpoint of one page: the entries that are not \<^verbatim>\<open>None\<close>, encoded after the path,
  or the path alone when none is left.\<close>

definition page_endpoint :: "pylib \<Rightarrow> string \<Rightarrow> pydict \<Rightarrow> string" where
  "page_endpoint L path params =
     (let filtered = filter (\<lambda>(k, v). v \<noteq> JNull) params
      in if filtered \<noteq> [] then path @ ''?'' @ urlencode L filtered else path)"

text \<open>
  The \<^verbatim>\<open>while True\<close> loop. \<open>client_get\<close> is \<^verbatim>\<open>self.get\<close>, acting on a state of its own;
  \<open>a\<close> is the address of the copy; the loop may run for ever, and then there is no
  result (\<open>None\<close>).
\<close>

partial_function (option) paginate ::
  "pylib \<Rightarrow> (string \<Rightarrow> 's \<Rightarrow> (exn + json) \<times> 's) \<Rightarrow> string \<Rightarrow> string \<Rightarrow> bool \<Rightarrow> nat
     \<Rightarrow> json list \<Rightarrow> heap \<times> 's \<Rightarrow> ((exn + json list) \<times> heap \<times> 's) option" where
  "paginate L client_get path response_key fetch_all a all_items hs =
     (case hs of (h, s) \<Rightarrow>
        (case client_get (page_endpoint L path (h ! a)) s of
           (Inl e, s') \<Rightarrow> Some (Inl e, h, s')
         | (Inr response, s') \<Rightarrow>
             (case response of
                JObj d \<Rightarrow>
                  (case py_iter (dict_get d response_key (JArr [])) of
                     Inl e \<Rightarrow> Some (Inl e, h, s')
                   | Inr items \<Rightarrow>
                       (let cursor = dict_get d ''cursor'' (JStr [])
                        in if \<not> fetch_all \<or> \<not> truthy cursor
                           then Some (Inr (all_items @ items), h, s')
                           else paginate L client_get path response_key fetch_all a (all_items @ items)
                                  (h[a := dict_set (h ! a) ''cursor'' cursor], s')))
              | _ \<Rightarrow> Some (Inl AttributeError, h, s'))))"

text \<open>\<^verbatim>\<open>paginated_get(path, response_key, params, fetch_all)\<close>, with \<open>params\<close> the address of
  the caller's dictionary: the copy is a new cell at the end of the store.\<close>

definition paginated_get ::
  "pylib \<Rightarrow> (string \<Rightarrow> 's \<Rightarrow> (exn + json) \<times> 's) \<Rightarrow> string \<Rightarrow> string \<Rightarrow> nat \<Rightarrow> bool
     \<Rightarrow> heap \<times> 's \<Rightarrow> ((exn + json list) \<times> heap \<times> 's) option" where
  "paginated_get L client_get path response_key params fetch_all hs =
     (case hs of (h, s) \<Rightarrow>
        paginate L client_get path response_key fetch_all (length h) [] (h @ [h ! params], s))"

section \<open>Orderbook models (kalshi\_api/models.py)\<close>

record OrderbookLevel =
  price :: int
  quantity :: int

record Orderbook =
  yes :: "int list list option"
  no :: "int list list option"
  yes_dollars :: "string list list option"
  no_dollars :: "string list list option"

record OrderbookFp =
  fp_yes_dollars :: "string list list option"
  fp_no_dollars :: "string list list option"

record OrderbookResponse =
  orderbook :: Orderbook
  orderbook_fp :: "OrderbookFp option"

text \<open>\<^verbatim>\<open>OrderbookLevel(price=p[0], quantity=p[1])\<close>: the two fields are declared \<^verbatim>\<open>int\<close> with
  no validator, so construction from two integers always succeeds; the indexing raises
  on a row shorter than two.\<close>

fun level_of_row :: "int list \<Rightarrow> exn + OrderbookLevel" where
  "level_of_row (p0 # p1 # _) = Inr \<lparr>price = p0, quantity = p1\<rparr>"
| "level_of_row _ = Inl IndexError"

text \<open>\<^verbatim>\<open>p[0]\<close>\<close>

fun first_entry :: "int list \<Rightarrow> exn + int" where
  "first_entry (p0 # _) = Inr p0"
| "first_entry [] = Inl IndexError"

text \<open>Python's \<^verbatim>\<open>max\<close> over an iterable: \<^verbatim>\<open>ValueError\<close> on an empty one.\<close>

fun py_max :: "int list \<Rightarrow> exn + int" where
  "py_max [] = Inl ValueError"
| "py_max (x # xs) = Inr (fold max xs x)"

definition side_levels :: "int list list option \<Rightarrow> exn + OrderbookLevel list" where
  "side_levels side =
     (case side of
        None \<Rightarrow> Inr []
      | Some rows \<Rightarrow> if rows = [] then Inr [] else collect level_of_row rows)"

definition yes_levels :: "OrderbookResponse \<Rightarrow> exn + OrderbookLevel list" where
  "yes_levels r = side_levels (yes (orderbook r))"

definition no_levels :: "OrderbookResponse \<Rightarrow> exn + OrderbookLevel list" where
  "no_levels r = side_levels (no (orderbook r))"

definition best_bid :: "int list list option \<Rightarrow> exn + int option" where
  "best_bid side =
     (case side of
        None \<Rightarrow> Inr None
      | Some rows \<Rightarrow>
          if rows = [] then Inr None
          else (case collect first_entry rows of
                  Inl e \<Rightarrow> Inl e
                | Inr ps \<Rightarrow> (case py_max ps of Inl e \<Rightarrow> Inl e | Inr m \<Rightarrow> Inr (Some m))))"

definition best_yes_bid :: "OrderbookResponse \<Rightarrow> exn + int option" where
  "best_yes_bid r = best_bid (yes (orderbook r))"

definition best_no_bid :: "OrderbookResponse \<Rightarrow> exn + int option" where
  "best_no_bid r = best_bid (no (orderbook r))"

section \<open>The specification's constraints and example data\<close>

text \<open>The data-model constraint of the specification on a level: a price of 1 to 99 cents
  and a non-negative quantity.\<close>

definition level_in_bounds :: "OrderbookLevel \<Rightarrow> bool" where
  "level_in_bounds l = (1 \<le> price l \<and> price l \<le> 99 \<and> 0 \<le> quantity l)"

text \<open>The book of the specification's example, with a second yes level and an absent no side.\<close>

definition book_50_45 :: OrderbookResponse where
  "book_50_45 =
     \<lparr>orderbook = \<lparr>yes = Some [[45, 3], [50, 10]], no = None,
                    yes_dollars = None, no_dollars = None\<rparr>,
      orderbook_fp = None\<rparr>"

definition book_no_40 :: OrderbookResponse where
  "book_no_40 =
     \<lparr>orderbook = \<lparr>yes = Some [], no = Some [[40, 5], [38, 1]],
                    yes_dollars = None, no_dollars = None\<rparr>,
      orderbook_fp = None\<rparr>"

text \<open>A book whose one row is outside the exchange's price range.\<close>

definition book_out_of_range :: OrderbookResponse where
  "book_out_of_range =
     \<lparr>orderbook = \<lparr>yes = Some [[150, - 3]], no = None, yes_dollars = None, no_dollars = None\<rparr>,
      orderbook_fp = None\<rparr>"


text \<open>An authentication failure whose body carries the insufficient-funds code, a rejected
  order, and an error page that is not JSON.\<close>

definition resp_401_funds :: response where
  \<open>resp_401_funds =
     \<lparr>status_code = 401, resp_headers = [],
      resp_text = ''{"code":"insufficient_funds"}'',
      resp_json = Some (JObj [(''code'', JStr ''insufficient_funds'')])\<rparr>\<close>

definition resp_402_balance :: response where
  \<open>resp_402_balance =
     \<lparr>status_code = 402, resp_headers = [],
      resp_text = ''{"error_code":"insufficient_balance","message":"no funds"}'',
      resp_json = Some (JObj [(''error_code'', JStr ''insufficient_balance''),
                              (''message'', JStr ''no funds'')])\<rparr>\<close>

definition resp_502_html :: response where
  "resp_502_html =
     \<lparr>status_code = 502, resp_headers = [], resp_text = ''<html>Bad Gateway</html>'',
      resp_json = None\<rparr>"

definition resp_200_markets :: response where
  \<open>resp_200_markets =
     \<lparr>status_code = 200, resp_headers = [], resp_text = ''{"markets":[]}'',
      resp_json = Some (JObj [(''markets'', JArr [])])\<rparr>\<close>

text \<open>An endpoint with its query string removed: the text before the first \<^verbatim>\<open>?\<close>.\<close>

definition strip_query :: "string \<Rightarrow> string" where
  "strip_query endpoint = takeWhile (\<lambda>c. c \<noteq> CHR ''?'') endpoint"

text \<open>The number a string of decimal digits denotes, to read \<open>str_nat\<close> back.\<close>

definition digits_value :: "string \<Rightarrow> nat" where
  "digits_value s = foldl (\<lambda>a c. 10 * a + ((of_char c :: nat) - 48)) 0 s"

text \<open>An encoder for the examples: \<^verbatim>\<open>key=value\<close> pairs joined by \<^verbatim>\<open>&\<close>, strings and
  integers written as they are (the example values need no percent-escape).\<close>

fun render_value :: "json \<Rightarrow> string" where
  "render_value (JStr s) = s"
| "render_value (JInt i) = str_int i"
| "render_value _ = []"

definition simple_urlencode :: "(string \<times> json) list \<Rightarrow> string" where
  "simple_urlencode kvs = join_with ''&'' (map (\<lambda>(k, v). k @ ''='' @ render_value v) kvs)"

text \<open>A client, a library instance (the table of CPython 3.11, every network location
  accepted, the encoder above and a constant body encoder), and a world whose clock
  stands at 1700000000123 ms and then advances by one per call.\<close>

definition demo_client :: KalshiClient where
  "demo_client =
     \<lparr>api_key_id = ''key-1'', private_key = 7,
      api_base = ''https://demo-api.elections.kalshi.com/trade-api/v2''\<rparr>"

definition py311 :: pylib where
  "py311 =
     \<lparr>netloc_ok = (\<lambda>_. True),
      uses_params = [[], ''ftp'', ''hdl'', ''prospero'', ''http'', ''imap'', ''https'', ''shttp'',
                     ''rtsp'', ''rtsps'', ''rtspu'', ''sip'', ''sips'', ''mms'', ''sftp'', ''tel''],
      json_dumps = (\<lambda>_. ''{}''),
      urlencode = simple_urlencode\<rparr>"

definition demo_env :: env where
  "demo_env =
     \<lparr>transport = (\<lambda>k. Returns resp_200_markets),
      clock = (\<lambda>k. 1700000000123 + int k),
      salts = (\<lambda>k. 5 + k)\<rparr>"

text \<open>The request the asynchronous loop hands to the HTTP session on every attempt.\<close>

definition sent_request ::
  "'l AsyncKalshiClient \<Rightarrow> string \<Rightarrow> string \<Rightarrow> string option \<Rightarrow> (string \<times> hval) list \<Rightarrow> http_request" where
  "sent_request c method endpoint data headers =
     \<lparr>req_method = method, req_url = a_api_base c @ endpoint, req_headers = headers,
      req_content = data, req_timeout = Some (a_timeout c)\<rparr>"

text \<open>Modelled from the spec: the constant \<^verbatim>\<open>_RETRYABLE_STATUS_CODES\<close> of the missing
  \<^verbatim>\<open>pykalshi/_base.py\<close>, as the retryable set the specification names: 429 and the 5xx
  server errors.\<close>

definition retryable_spec :: "int \<Rightarrow> bool" where
  "retryable_spec s = (s = 429 \<or> (500 \<le> s \<and> s \<le> 599))"

text \<open>Modelled from the spec: the method \<^verbatim>\<open>_compute_backoff\<close> of the missing
  \<^verbatim>\<open>pykalshi/_base.py\<close>, as step 6 of section 4.3 has it: the server's \<^verbatim>\<open>Retry-After\<close>
  value when there is one (read when it is a whole number of seconds), otherwise the base
  delay doubled per attempt, under a cap. The specification fixes neither the base delay
  nor the cap; they are arguments.\<close>

definition spec_backoff :: "rat \<Rightarrow> rat \<Rightarrow> int \<Rightarrow> string option \<Rightarrow> rat" where
  "spec_backoff base_delay cap attempt retry_after =
     (case retry_after of
        None \<Rightarrow> min (base_delay * 2 ^ nat attempt) cap
      | Some s \<Rightarrow>
          if s \<noteq> [] \<and> list_all ascii_digit s then of_nat (digits_value s)
          else min (base_delay * 2 ^ nat attempt) cap)"

text \<open>Modelled from the spec: the method \<^verbatim>\<open>_handle_response\<close> of the missing
  \<^verbatim>\<open>pykalshi/_base.py\<close>, as steps 8 and 9 of section 4.3 and section 7 have it: below 400
  the parsed JSON body; otherwise the typed error of the taxonomy, with the message and
  code fields of the parsed error body when it has them and the raw response text and no
  code when it does not parse.\<close>

definition spec_handle_response :: "response \<Rightarrow> string \<Rightarrow> string \<Rightarrow> json option \<Rightarrow> exn + json" where
  "spec_handle_response response method endpoint request_body =
     (if status_code response < 400 then
        (case resp_json response of None \<Rightarrow> Inl ValueError | Some body \<Rightarrow> Inr body)
      else
        (case resp_json response of
           Some (JObj error_data) \<Rightarrow>
             Inl (raise_for (status_code response)
                    (dict_get error_data ''message'' (JStr (resp_text response)))
                    (dict_get error_data ''code'' JNull))
         | _ \<Rightarrow> Inl (raise_for (status_code response) (JStr (resp_text response)) JNull)))"

text \<open>Modelled from the spec: an instance of the members of the missing
  \<^verbatim>\<open>pykalshi/_base.py\<close> for the examples: the retryable set, the backoff (half a second
  doubling, at most thirty) and the response handler above, the signer of section 4.1 as
  \<open>get_headers\<close> has it, and no rate limiter to update.\<close>

definition demo_base :: "unit base" where
  "demo_base =
     \<lparr>RETRYABLE_STATUS_CODES = retryable_spec,
      base_get_headers = (\<lambda>k. get_headers py311 demo_client (clock demo_env k) (salts demo_env k)),
      compute_backoff = spec_backoff (1 / 2) 30,
      update_rate_limiter = (\<lambda>response l. l),
      base_handle_response = spec_handle_response\<rparr>"

definition demo_aclient :: "unit AsyncKalshiClient" where
  "demo_aclient =
     \<lparr>a_api_base = ''https://demo-api.elections.kalshi.com/trade-api/v2'', a_timeout = 10,
      max_retries = 3, rate_limiter = None\<rparr>"

definition astate0 :: "unit astate" where
  "astate0 = \<lparr>a_sent = [], slept = [], limiter = ()\<rparr>"

definition resp_429 :: response where
  \<open>resp_429 =
     \<lparr>status_code = 429, resp_headers = [(''Retry-After'', ''1'')],
      resp_text = ''{"message":"too many requests"}'',
      resp_json = Some (JObj [(''message'', JStr ''too many requests'')])\<rparr>\<close>

text \<open>Mock transports: 429 twice and then 200 and 429 for ever, as in the specification's
  tests, and 429 once and then 200.\<close>

definition transport_429_429_200 :: "nat \<Rightarrow> outcome" where
  "transport_429_429_200 k = (if k < 2 then Returns resp_429 else Returns resp_200_markets)"

definition transport_always_429 :: "nat \<Rightarrow> outcome" where
  "transport_always_429 k = Returns resp_429"



text \<open>A mock of the client's \<^verbatim>\<open>get\<close> for the pagination driver: the k-th call returns
  (or raises) the k-th entry of a sequence, and the state is the list of the endpoints
  requested so far.\<close>

definition paged_get :: "(nat \<Rightarrow> exn + json) \<Rightarrow> string \<Rightarrow> string list \<Rightarrow> (exn + json) \<times> string list" where
  "paged_get pages endpoint trace = (pages (length trace), trace @ [endpoint])"

text \<open>The parameters of the i-th request as the specification describes them: the
  caller's on the first call, then the same with \<^verbatim>\<open>cursor\<close> set to the previous response's
  cursor.\<close>

fun params_at :: "(nat \<Rightarrow> pydict) \<Rightarrow> pydict \<Rightarrow> nat \<Rightarrow> pydict" where
  "params_at d p 0 = p"
| "params_at d p (Suc i) = dict_set (params_at d p i) ''cursor'' (dict_get (d i) ''cursor'' (JStr []))"

text \<open>The two pages of the specification's test, and a caller's dictionary in the store,
  without a cursor entry.\<close>

definition page_1 :: pydict where
  "page_1 = [(''items'', JArr [JStr ''A'', JStr ''B'']), (''cursor'', JStr ''p2'')]"

definition page_2 :: pydict where
  "page_2 = [(''items'', JArr [JStr ''C'']), (''cursor'', JStr [])]"

definition pages_demo :: "nat \<Rightarrow> exn + json" where
  "pages_demo k = (if k = 0 then Inr (JObj page_1) else Inr (JObj page_2))"

definition heap_demo :: heap where
  "heap_demo = [[(''limit'', JInt 100), (''status'', JNull)]]"

section \<open>Properties of the orderbook models\<close>

lemma collect_map:
  "collect f xs = Inr ys \<Longrightarrow> (\<And>x y. x \<in> set xs \<Longrightarrow> f x = Inr y \<Longrightarrow> g x = Inr (h y))
     \<Longrightarrow> collect g xs = Inr (map h ys)"
proof (induction xs arbitrary: ys)
  case Nil
  then show ?case by simp
next
  case (Cons x xs)
  from Cons.prems(1) obtain y ys' where
    fx: "f x = Inr y" and rest: "collect f xs = Inr ys'" and ys: "ys = y # ys'"
    by (auto split: sum.splits)
  have "g x = Inr (h y)" using Cons.prems(2) fx by simp
  moreover have "collect g xs = Inr (map h ys')"
    using Cons.IH [OF rest] Cons.prems(2) by simp
  ultimately show ?case using ys by simp
qed

lemma collect_total:
  "(\<And>x. x \<in> set xs \<Longrightarrow> f x = Inr (g x)) \<Longrightarrow> collect f xs = Inr (map g xs)"
  by (induction xs) simp_all

lemma collect_length: "collect f xs = Inr ys \<Longrightarrow> length ys = length xs"
  by (induction xs arbitrary: ys) (auto split: sum.splits)

lemma level_first_entry: "level_of_row p = Inr l \<Longrightarrow> first_entry p = Inr (price l)"
  by (cases p rule: level_of_row.cases) auto

lemma py_max_Max: "py_max ps = Inr (Max (set ps))" if "ps \<noteq> []"
proof (cases ps)
  case Nil
  then show ?thesis using that by simp
next
  case (Cons x xs)
  then show ?thesis using Max.set_eq_fold [of x xs] by simp
qed

lemma best_bid_rows:
  assumes "rows \<noteq> []" and "\<And>p. p \<in> set rows \<Longrightarrow> p \<noteq> []"
  shows "best_bid (Some rows) = Inr (Some (Max (hd ` set rows)))"
proof -
  have "\<And>p. p \<in> set rows \<Longrightarrow> first_entry p = Inr (hd p)"
    using assms(2) by (case_tac p) auto
  then have "collect first_entry rows = Inr (map hd rows)"
    by (rule collect_total)
  moreover have "py_max (map hd rows) = Inr (Max (hd ` set rows))"
    using assms(1) py_max_Max [of "map hd rows"] by simp
  ultimately show ?thesis using assms(1) by (simp add: best_bid_def)
qed

lemma best_bid_levels:
  assumes "side_levels side = Inr ls" and "ls \<noteq> []"
  shows "best_bid side = Inr (Some (Max (price ` set ls)))"
proof -
  from assms obtain rows where side: "side = Some rows" and ne: "rows \<noteq> []"
    and col: "collect level_of_row rows = Inr ls"
    by (auto simp: side_levels_def split: option.splits if_splits)
  have "collect first_entry rows = Inr (map price ls)"
    using col by (rule collect_map) (simp add: level_first_entry)
  moreover have "py_max (map price ls) = Inr (Max (price ` set ls))"
    using assms(2) py_max_Max [of "map price ls"] by simp
  ultimately show ?thesis using side ne by (simp add: best_bid_def)
qed

lemma best_bid_empty: "side = None \<or> side = Some [] \<Longrightarrow> best_bid side = Inr None"
  by (auto simp: best_bid_def)

lemma collect_level_rows:
  "collect level_of_row rows = Inr ls \<Longrightarrow>
     length ls = length rows \<and>
     (\<forall>i < length rows. 2 \<le> length (rows ! i) \<and> price (ls ! i) = rows ! i ! 0
          \<and> quantity (ls ! i) = rows ! i ! 1)"
proof (induction rows arbitrary: ls)
  case Nil
  then show ?case by simp
next
  case (Cons p rows)
  from Cons.prems obtain l ls' where
    l: "level_of_row p = Inr l" and rest: "collect level_of_row rows = Inr ls'"
    and ls: "ls = l # ls'"
    by (auto split: sum.splits)
  from l have p: "2 \<le> length p \<and> price l = p ! 0 \<and> quantity l = p ! 1"
    by (cases p rule: level_of_row.cases) auto
  show ?case
  proof (intro conjI allI impI)
    show "length ls = length (p # rows)" using Cons.IH [OF rest] ls by simp
  next
    fix i assume "i < length (p # rows)"
    then show "2 \<le> length ((p # rows) ! i)" using Cons.IH [OF rest] p by (cases i) auto
  next
    fix i assume "i < length (p # rows)"
    then show "price (ls ! i) = (p # rows) ! i ! 0" using Cons.IH [OF rest] p ls by (cases i) auto
  next
    fix i assume "i < length (p # rows)"
    then show "quantity (ls ! i) = (p # rows) ! i ! 1" using Cons.IH [OF rest] p ls by (cases i) auto
  qed
qed

text \<open>
  Claim C8. For every orderbook response whose yes side is non-empty, the best yes bid is
  the maximum price among the yes side's levels, and likewise the best no bid for the no
  side; a side that is absent or empty has no best bid. The levels of a side are what
  \<open>yes_levels\<close> and \<open>no_levels\<close> return; the same holds of the rows themselves as
  soon as each one has a first entry.
\<close>

theorem best_bid_is_max_price:
  "(yes_levels r = Inr ls \<and> ls \<noteq> [] \<longrightarrow> best_yes_bid r = Inr (Some (Max (price ` set ls)))) \<and>
   (no_levels r = Inr ls' \<and> ls' \<noteq> [] \<longrightarrow> best_no_bid r = Inr (Some (Max (price ` set ls')))) \<and>
   (yes (orderbook r) = Some rows \<and> rows \<noteq> [] \<and> (\<forall>p \<in> set rows. p \<noteq> [])
      \<longrightarrow> best_yes_bid r = Inr (Some (Max (hd ` set rows)))) \<and>
   (no (orderbook r) = Some rows' \<and> rows' \<noteq> [] \<and> (\<forall>p \<in> set rows'. p \<noteq> [])
      \<longrightarrow> best_no_bid r = Inr (Some (Max (hd ` set rows')))) \<and>
   (yes (orderbook r) = None \<or> yes (orderbook r) = Some [] \<longrightarrow> best_yes_bid r = Inr None) \<and>
   (no (orderbook r) = None \<or> no (orderbook r) = Some [] \<longrightarrow> best_no_bid r = Inr None)"
  unfolding yes_levels_def no_levels_def best_yes_bid_def best_no_bid_def
  using best_bid_levels [of "yes (orderbook r)" ls] best_bid_levels [of "no (orderbook r)" ls']
    best_bid_rows [of rows] best_bid_rows [of rows']
    best_bid_empty [of "yes (orderbook r)"] best_bid_empty [of "no (orderbook r)"]
  by auto

theorem best_bid_is_max_price_witness:
  "yes_levels book_50_45 = Inr [\<lparr>price = 45, quantity = 3\<rparr>, \<lparr>price = 50, quantity = 10\<rparr>]
   \<and> best_yes_bid book_50_45 = Inr (Some 50) \<and> best_no_bid book_50_45 = Inr None
   \<and> no_levels book_no_40 = Inr [\<lparr>price = 40, quantity = 5\<rparr>, \<lparr>price = 38, quantity = 1\<rparr>]
   \<and> best_no_bid book_no_40 = Inr (Some 40) \<and> best_yes_bid book_no_40 = Inr None"
proof -
  have y: "yes_levels book_50_45 = Inr [\<lparr>price = 45, quantity = 3\<rparr>, \<lparr>price = 50, quantity = 10\<rparr>]"
    by (simp add: book_50_45_def yes_levels_def side_levels_def)
  have n: "no_levels book_no_40 = Inr [\<lparr>price = 40, quantity = 5\<rparr>, \<lparr>price = 38, quantity = 1\<rparr>]"
    by (simp add: book_no_40_def no_levels_def side_levels_def)
  have a: "no (orderbook book_50_45) = None" "yes (orderbook book_no_40) = Some []"
    by (simp_all add: book_50_45_def book_no_40_def)
  from y a(1)
    best_bid_is_max_price [of book_50_45
      "[\<lparr>price = 45, quantity = 3\<rparr>, \<lparr>price = 50, quantity = 10\<rparr>]" "[]"
      "[[45, 3], [50, 10]]" "[]"]
  have "best_yes_bid book_50_45 = Inr (Some 50) \<and> best_no_bid book_50_45 = Inr None"
    by (simp add: book_50_45_def)
  moreover from n a(2)
    best_bid_is_max_price [of book_no_40 "[]"
      "[\<lparr>price = 40, quantity = 5\<rparr>, \<lparr>price = 38, quantity = 1\<rparr>]" "[]"
      "[[40, 5], [38, 1]]"]
  have "best_no_bid book_no_40 = Inr (Some 40) \<and> best_yes_bid book_no_40 = Inr None"
    by (simp add: book_no_40_def)
  ultimately show ?thesis using y n by simp
qed

text \<open>
  Claim C9, as the specification states it: every level that can be constructed has a
  price between 1 and 99 and a non-negative quantity (\<open>level_in_bounds\<close>). It fails: the
  row \<^verbatim>\<open>[150, -3]\<close> becomes a level as it stands.
\<close>

theorem level_bounds_counterexample:
  "yes_levels book_out_of_range = Inr [\<lparr>price = 150, quantity = - 3\<rparr>]
   \<and> \<not> level_in_bounds \<lparr>price = 150, quantity = - 3\<rparr>"
  by (simp add: book_out_of_range_def yes_levels_def side_levels_def level_in_bounds_def)

text \<open>
  Claim C9, amended. A level holds the integers it is constructed from, whatever they
  are: \<open>yes_levels\<close> and \<open>no_levels\<close> copy the first two entries of each row, in order, so
  the levels of a side are within the bounds exactly when its rows are.
\<close>

theorem levels_mirror_rows:
  "(level_of_row (p0 # p1 # rest) = Inr \<lparr>price = p0, quantity = p1\<rparr>) \<and>
   (side_levels (Some rows) = Inr ls \<longrightarrow>
      length ls = length rows \<and>
      (\<forall>i < length rows. 2 \<le> length (rows ! i) \<and> price (ls ! i) = rows ! i ! 0
           \<and> quantity (ls ! i) = rows ! i ! 1) \<and>
      ((\<forall>l \<in> set ls. level_in_bounds l) \<longleftrightarrow>
       (\<forall>p \<in> set rows. 1 \<le> p ! 0 \<and> p ! 0 \<le> 99 \<and> 0 \<le> p ! 1)))"
proof -
  have "length ls = length rows \<and>
      (\<forall>i < length rows. 2 \<le> length (rows ! i) \<and> price (ls ! i) = rows ! i ! 0
           \<and> quantity (ls ! i) = rows ! i ! 1)"
    if "side_levels (Some rows) = Inr ls"
  proof -
    from that have col: "collect level_of_row rows = Inr ls"
      by (auto simp: side_levels_def split: if_splits)
    show ?thesis using col by (rule collect_level_rows)
  qed
  moreover have "(\<forall>l \<in> set ls. level_in_bounds l) \<longleftrightarrow>
       (\<forall>p \<in> set rows. 1 \<le> p ! 0 \<and> p ! 0 \<le> 99 \<and> 0 \<le> p ! 1)"
    if len: "length ls = length rows"
      and pt: "\<forall>i < length rows. 2 \<le> length (rows ! i) \<and> price (ls ! i) = rows ! i ! 0
           \<and> quantity (ls ! i) = rows ! i ! 1"
  proof
    assume a: "\<forall>l \<in> set ls. level_in_bounds l"
    show "\<forall>p \<in> set rows. 1 \<le> p ! 0 \<and> p ! 0 \<le> 99 \<and> 0 \<le> p ! 1"
    proof
      fix p assume "p \<in> set rows"
      then obtain i where i: "i < length rows" "rows ! i = p" by (auto simp: in_set_conv_nth)
      then have "level_in_bounds (ls ! i)" using a len by simp
      then show "1 \<le> p ! 0 \<and> p ! 0 \<le> 99 \<and> 0 \<le> p ! 1"
        using pt i by (auto simp: level_in_bounds_def)
    qed
  next
    assume a: "\<forall>p \<in> set rows. 1 \<le> p ! 0 \<and> p ! 0 \<le> 99 \<and> 0 \<le> p ! 1"
    show "\<forall>l \<in> set ls. level_in_bounds l"
    proof
      fix l assume "l \<in> set ls"
      then obtain i where i: "i < length ls" "ls ! i = l" by (auto simp: in_set_conv_nth)
      then have "1 \<le> rows ! i ! 0 \<and> rows ! i ! 0 \<le> 99 \<and> 0 \<le> rows ! i ! 1"
        using a len by simp
      then show "level_in_bounds l"
        using pt i len by (auto simp: level_in_bounds_def)
    qed
  qed
  ultimately show ?thesis by simp
qed

theorem levels_mirror_rows_witness:
  "side_levels (Some [[150, - 3], [7, 2]]) = Inr [\<lparr>price = 150, quantity = - 3\<rparr>, \<lparr>price = 7, quantity = 2\<rparr>]
   \<and> \<not> (\<forall>l \<in> set [\<lparr>price = 150, quantity = - 3\<rparr>, \<lparr>price = 7, quantity = 2\<rparr>]. level_in_bounds l)"
proof -
  have s: "side_levels (Some [[150, - 3], [7, 2]])
           = Inr [\<lparr>price = 150, quantity = - 3\<rparr>, \<lparr>price = 7, quantity = 2\<rparr>]"
    by (simp add: side_levels_def)
  from s levels_mirror_rows [of 150 "- 3" "[]" "[[150, - 3], [7, 2]]"
      "[\<lparr>price = 150, quantity = - 3\<rparr>, \<lparr>price = 7, quantity = 2\<rparr>]"]
  show ?thesis by simp
qed

section \<open>The response handler of the synchronous client\<close>

lemma handle_response_success:
  "effective_status r < 400 \<Longrightarrow> resp_json r = Some body \<Longrightarrow> handle_response r = Inr body"
  by (simp add: handle_response_def)

lemma handle_response_error:
  "400 \<le> effective_status r \<Longrightarrow> error_fields r = Inr (m, c) \<Longrightarrow>
     handle_response r = Inl (raise_for (effective_status r) m c)"
  by (simp add: handle_response_def)

lemma raise_for_fields:
  "exn_status (raise_for s m c) = s \<and> exn_message (raise_for s m c) = m
     \<and> exn_code (raise_for s m c) = c"
  by (simp add: raise_for_def)

lemma raise_for_class:
  "(is_AuthenticationError (raise_for s m c) \<longleftrightarrow> s = 401 \<or> s = 403) \<and>
   (is_ResourceNotFoundError (raise_for s m c) \<longleftrightarrow> s = 404) \<and>
   (is_InsufficientFundsError (raise_for s m c) \<longleftrightarrow>
      s \<noteq> 401 \<and> s \<noteq> 403 \<and> s \<noteq> 404
      \<and> (c = JStr ''insufficient_funds'' \<or> c = JStr ''insufficient_balance'')) \<and>
   (is_KalshiAPIError (raise_for s m c) \<longleftrightarrow>
      s \<noteq> 401 \<and> s \<noteq> 403 \<and> s \<noteq> 404
      \<and> c \<noteq> JStr ''insufficient_funds'' \<and> c \<noteq> JStr ''insufficient_balance'')"
  by (simp add: raise_for_def)

lemma error_fields_not_json:
  "resp_json r = None \<Longrightarrow> error_fields r = Inr (JStr (resp_text r), JNull)"
  by (simp add: error_fields_def)

text \<open>
  Claim C1, as stated, asks for \<open>InsufficientFundsError\<close> on every error other than 404
  whose code is an insufficient-funds code. The handler tests 401 and 403 first: a 401
  with that code is an \<open>AuthenticationError\<close>.
\<close>

theorem handle_response_401_funds_counterexample:
  "handle_response resp_401_funds
     = Inl (AuthenticationError 401 (JStr ''Unknown Error'') (JStr ''insufficient_funds''))
   \<and> handle_response resp_401_funds
     \<noteq> Inl (InsufficientFundsError 401 (JStr ''Unknown Error'') (JStr ''insufficient_funds''))"
  by (simp add: resp_401_funds_def handle_response_def effective_status_def error_fields_def
      raise_for_def dict_get_def py_or_def)

text \<open>
  Claim C1, amended. Read the status as 500 when it is zero (\<open>effective_status\<close>). Below 400
  the handler returns the decoded body. From 400 on, for an error body that is a JSON
  object or is not JSON at all (\<open>error_fields\<close> yields a message and a code), it raises an
  error that carries the status, the message and the code and whose class is
  \<open>AuthenticationError\<close> exactly for 401 and 403, \<open>ResourceNotFoundError\<close> exactly for 404,
  \<open>InsufficientFundsError\<close> exactly for the other statuses with one of the two
  insufficient-funds codes, and plain \<open>KalshiAPIError\<close> exactly for the rest. A body that
  is not JSON gives the raw text as the message and no code.
\<close>

theorem handle_response_taxonomy:
  "(effective_status r < 400 \<and> resp_json r = Some body \<longrightarrow> handle_response r = Inr body) \<and>
   (400 \<le> effective_status r \<and> error_fields r = Inr (m, c) \<longrightarrow>
      (\<exists>e. handle_response r = Inl e
         \<and> exn_status e = effective_status r \<and> exn_message e = m \<and> exn_code e = c
         \<and> (is_AuthenticationError e \<longleftrightarrow> effective_status r = 401 \<or> effective_status r = 403)
         \<and> (is_ResourceNotFoundError e \<longleftrightarrow> effective_status r = 404)
         \<and> (is_InsufficientFundsError e \<longleftrightarrow>
               effective_status r \<noteq> 401 \<and> effective_status r \<noteq> 403 \<and> effective_status r \<noteq> 404
               \<and> (c = JStr ''insufficient_funds'' \<or> c = JStr ''insufficient_balance''))
         \<and> (is_KalshiAPIError e \<longleftrightarrow>
               effective_status r \<noteq> 401 \<and> effective_status r \<noteq> 403 \<and> effective_status r \<noteq> 404
               \<and> c \<noteq> JStr ''insufficient_funds'' \<and> c \<noteq> JStr ''insufficient_balance''))) \<and>
   (resp_json r = None \<longrightarrow> error_fields r = Inr (JStr (resp_text r), JNull))"
proof (intro conjI impI)
  assume "effective_status r < 400 \<and> resp_json r = Some body"
  then show "handle_response r = Inr body" by (simp add: handle_response_success)
next
  assume a: "400 \<le> effective_status r \<and> error_fields r = Inr (m, c)"
  let ?e = "raise_for (effective_status r) m c"
  have "handle_response r = Inl ?e" using a by (simp add: handle_response_error)
  then show "\<exists>e. handle_response r = Inl e
         \<and> exn_status e = effective_status r \<and> exn_message e = m \<and> exn_code e = c
         \<and> (is_AuthenticationError e \<longleftrightarrow> effective_status r = 401 \<or> effective_status r = 403)
         \<and> (is_ResourceNotFoundError e \<longleftrightarrow> effective_status r = 404)
         \<and> (is_InsufficientFundsError e \<longleftrightarrow>
               effective_status r \<noteq> 401 \<and> effective_status r \<noteq> 403 \<and> effective_status r \<noteq> 404
               \<and> (c = JStr ''insufficient_funds'' \<or> c = JStr ''insufficient_balance''))
         \<and> (is_KalshiAPIError e \<longleftrightarrow>
               effective_status r \<noteq> 401 \<and> effective_status r \<noteq> 403 \<and> effective_status r \<noteq> 404
               \<and> c \<noteq> JStr ''insufficient_funds'' \<and> c \<noteq> JStr ''insufficient_balance'')"
    using raise_for_fields [of "effective_status r" m c] raise_for_class [of "effective_status r" m c]
    by (intro exI [of _ ?e]) simp
next
  assume "resp_json r = None"
  then show "error_fields r = Inr (JStr (resp_text r), JNull)" by (rule error_fields_not_json)
qed

theorem handle_response_taxonomy_witness:
  "handle_response resp_200_markets = Inr (JObj [(''markets'', JArr [])])
   \<and> handle_response resp_402_balance
       = Inl (InsufficientFundsError 402 (JStr ''no funds'') (JStr ''insufficient_balance''))
   \<and> handle_response resp_502_html
       = Inl (KalshiAPIError 502 (JStr ''<html>Bad Gateway</html>'') JNull)"
proof -
  have s: "effective_status resp_200_markets = 200" "effective_status resp_402_balance = 402"
    "effective_status resp_502_html = 502"
    by (simp_all add: effective_status_def resp_200_markets_def resp_402_balance_def
        resp_502_html_def)
  have j: "resp_json resp_200_markets = Some (JObj [(''markets'', JArr [])])"
    "resp_json resp_502_html = None" "resp_text resp_502_html = ''<html>Bad Gateway</html>''"
    by (simp_all add: resp_200_markets_def resp_502_html_def)
  have f: "error_fields resp_402_balance = Inr (JStr ''no funds'', JStr ''insufficient_balance'')"
    by (simp add: error_fields_def resp_402_balance_def dict_get_def py_or_def)
  have g: "error_fields resp_502_html = Inr (JStr ''<html>Bad Gateway</html>'', JNull)"
    using handle_response_taxonomy [of resp_502_html] j by simp
  have 1: "handle_response resp_200_markets = Inr (JObj [(''markets'', JArr [])])"
    using handle_response_taxonomy [of resp_200_markets "JObj [(''markets'', JArr [])]"] s j
    by simp
  have 2: "handle_response resp_402_balance
       = Inl (InsufficientFundsError 402 (JStr ''no funds'') (JStr ''insufficient_balance''))"
  proof -
    from handle_response_taxonomy [of resp_402_balance _ "JStr ''no funds''"
        "JStr ''insufficient_balance''"] s f
    obtain e where e: "handle_response resp_402_balance = Inl e" "exn_status e = 402"
      "exn_message e = JStr ''no funds''" "exn_code e = JStr ''insufficient_balance''"
      "is_InsufficientFundsError e"
      by auto
    then show ?thesis by (cases e) simp_all
  qed
  have 3: "handle_response resp_502_html
       = Inl (KalshiAPIError 502 (JStr ''<html>Bad Gateway</html>'') JNull)"
  proof -
    from handle_response_taxonomy [of resp_502_html _ "JStr ''<html>Bad Gateway</html>''" JNull]
      s g
    obtain e where e: "handle_response resp_502_html = Inl e" "exn_status e = 502"
      "exn_message e = JStr ''<html>Bad Gateway</html>''" "exn_code e = JNull"
      "is_KalshiAPIError e"
      by auto
    then show ?thesis by (cases e) simp_all
  qed
  from 1 2 3 show ?thesis by simp
qed

section \<open>Request signing\<close>

subsection \<open>The decimal rendering is injective\<close>


lemma digit_char_code: "d < 10 \<Longrightarrow> (of_char (digit_char d) :: nat) = 48 + d"
proof -
  assume "d < 10"
  then have "d = 0 \<or> d = 1 \<or> d = 2 \<or> d = 3 \<or> d = 4 \<or> d = 5 \<or> d = 6 \<or> d = 7
    \<or> d = 8 \<or> d = 9"
    by arith
  then show ?thesis by (elim disjE) (simp_all add: digit_char_def)
qed

lemma digits_value_str_nat: "digits_value (str_nat n) = n"
proof (induction n rule: str_nat.induct)
  case (1 n)
  show ?case
  proof (cases "n < 10")
    case True
    then show ?thesis
      by (subst str_nat.simps) (simp add: digits_value_def digit_char_code)
  next
    case False
    then have "digits_value (str_nat (n div 10)) = n div 10" using 1 by simp
    then show ?thesis
      using False
      by (subst str_nat.simps) (simp add: digits_value_def digit_char_code)
  qed
qed

lemma str_nat_inj: "str_nat a = str_nat b \<Longrightarrow> a = b"
  by (metis digits_value_str_nat)

lemma str_nat_no_minus: "CHR ''-'' \<notin> set (str_nat n)"
proof (induction n rule: str_nat.induct)
  case (1 n)
  have d: "digit_char k \<noteq> CHR ''-''" if "k < 10" for k
    using digit_char_code [OF that] by auto
  show ?case
  proof (cases "n < 10")
    case True
    then show ?thesis using d [of n] by (subst str_nat.simps) simp
  next
    case False
    then show ?thesis using 1 d [of "n mod 10"] by (subst str_nat.simps) simp
  qed
qed

lemma str_int_inj: "str_int i = str_int j \<Longrightarrow> i = j"
proof -
  assume eq: "str_int i = str_int j"
  have neg: False if "a < 0" "\<not> b < 0" "str_int a = str_int b" for a b
  proof -
    from that have "CHR ''-'' \<in> set (str_nat (nat b))" by (simp add: str_int_def) (metis list.set_intros(1))
    then show False by (simp add: str_nat_no_minus)
  qed
  show ?thesis
  proof (cases "i < 0")
    case True
    show ?thesis
    proof (cases "j < 0")
      case jn: True
      with True eq have "nat (- i) = nat (- j)" by (simp add: str_int_def str_nat_inj)
      with True jn show ?thesis by simp
    next
      case False
      with True eq neg show ?thesis by blast
    qed
  next
    case False
    show ?thesis
    proof (cases "j < 0")
      case True
      with False eq neg [of j i] show ?thesis by simp
    next
      case jp: False
      with False eq have "nat i = nat j" by (simp add: str_int_def str_nat_inj)
      with False jp show ?thesis by simp
    qed
  qed
qed

subsection \<open>Removing the query string does not change the parsed path\<close>


lemma dropWhile_takeWhile_commute:
  "(\<And>x. P x \<Longrightarrow> Q x) \<Longrightarrow> dropWhile P (takeWhile Q xs) = takeWhile Q (dropWhile P xs)"
  by (induction xs) auto

lemma filter_takeWhile_commute:
  "(\<And>x. \<not> Q x \<Longrightarrow> R x) \<Longrightarrow> filter R (takeWhile Q xs) = takeWhile Q (filter R xs)"
  by (induction xs) auto

lemma takeWhile_twice:
  "takeWhile P (takeWhile Q xs) = takeWhile (\<lambda>x. P x \<and> Q x) xs"
  by (induction xs) auto

lemma takeWhile_absorb:
  "(\<And>x. P x \<Longrightarrow> Q x) \<Longrightarrow> takeWhile P (takeWhile Q xs) = takeWhile P xs"
  by (induction xs) auto

lemma takeWhile_neq_append:
  "c \<notin> set p \<Longrightarrow> takeWhile (\<lambda>x. x \<noteq> c) (p @ ys) = p @ takeWhile (\<lambda>x. x \<noteq> c) ys"
  by (induction p) auto

lemma clean_url_strip: "clean_url (strip_query e) = strip_query (clean_url e)"
proof -
  have 1: "dropWhile c0_control_or_space (strip_query e) = strip_query (dropWhile c0_control_or_space e)"
    unfolding strip_query_def
    by (rule dropWhile_takeWhile_commute) (auto simp: c0_control_or_space_def)
  show ?thesis
    unfolding clean_url_def 1
    unfolding strip_query_def
    by (rule filter_takeWhile_commute) (auto simp: unsafe_url_byte_def)
qed

lemma split_scheme_strip:
  "split_scheme (strip_query u) = (fst (split_scheme u), strip_query (snd (split_scheme u)))"
proof (cases "CHR ''?'' \<in> set u")
  case False
  then have "strip_query u = u" by (auto simp: strip_query_def)
  moreover have "strip_query (snd (split_scheme u)) = snd (split_scheme u)"
  proof -
    have "set (snd (split_scheme u)) \<subseteq> set u"
      by (auto simp: split_scheme_def Let_def dest: in_set_dropD)
    with False show ?thesis by (auto simp: strip_query_def)
  qed
  ultimately show ?thesis by simp
next
  case True
  define a where "a = strip_query u"
  have "dropWhile (\<lambda>c. c \<noteq> CHR ''?'') u \<noteq> []"
    using True by (simp add: dropWhile_eq_Nil_conv)
  then obtain x r where d: "dropWhile (\<lambda>c. c \<noteq> CHR ''?'') u = x # r"
    by (cases "dropWhile (\<lambda>c. c \<noteq> CHR ''?'') u") auto
  have "x = CHR ''?''" using hd_dropWhile [of "\<lambda>c. c \<noteq> CHR ''?''" u] d by simp
  then have u: "u = a @ CHR ''?'' # r"
    using takeWhile_dropWhile_id [of "\<lambda>c. c \<noteq> CHR ''?''" u] d
    by (simp add: a_def strip_query_def)
  have qa: "CHR ''?'' \<notin> set a"
    unfolding a_def strip_query_def by (auto dest: set_takeWhileD)
  show ?thesis
  proof (cases "CHR '':'' \<in> set a")
    case True
    then obtain p s where a: "a = p @ CHR '':'' # s" and p: "CHR '':'' \<notin> set p"
      by (meson split_list_first)
    have t1: "takeWhile (\<lambda>c. c \<noteq> CHR '':'') a = p" using a p by (simp add: takeWhile_neq_append)
    have t2: "takeWhile (\<lambda>c. c \<noteq> CHR '':'') u = p" using a p u by (simp add: takeWhile_neq_append)
    have s: "strip_query (s @ CHR ''?'' # r) = s" using qa a by (simp add: strip_query_def takeWhile_neq_append)
    define ok where "ok \<longleftrightarrow> p \<noteq> [] \<and> (ascii_lower (hd p) \<or> ascii_upper (hd p))
        \<and> list_all scheme_char p"
    have ca: "CHR '':'' \<in> set a" and cu: "CHR '':'' \<in> set u" using a u by simp_all
    have da: "drop (length p + 1) a = s" using a by simp
    have du: "drop (length p + 1) u = s @ CHR ''?'' # r" using a u by simp
    have 1: "split_scheme a = (if ok then (map lower_char p, s) else ([], a))"
      unfolding split_scheme_def Let_def t1 ok_def using ca da by simp
    have 2: "split_scheme u = (if ok then (map lower_char p, s @ CHR ''?'' # r) else ([], u))"
      unfolding split_scheme_def Let_def t2 ok_def using cu du by simp
    show ?thesis
      unfolding a_def [symmetric] 1 2 using s a_def by simp
  next
    case False
    then have 1: "split_scheme a = ([], a)" by (simp add: split_scheme_def)
    have "takeWhile (\<lambda>c. c \<noteq> CHR '':'') u = a @ takeWhile (\<lambda>c. c \<noteq> CHR '':'') (CHR ''?'' # r)"
      using False u by (simp add: takeWhile_neq_append)
    then have "\<not> list_all scheme_char (takeWhile (\<lambda>c. c \<noteq> CHR '':'') u)"
      by (simp add: scheme_char_def ascii_lower_def ascii_upper_def ascii_digit_def)
    then have 2: "split_scheme u = ([], u)" by (simp add: split_scheme_def Let_def)
    show ?thesis unfolding a_def [symmetric] using 1 2 a_def by simp
  qed
qed


lemma take2_strip:
  "take 2 (strip_query r) = ''//'' \<longleftrightarrow> take 2 r = ''//''"
proof (cases r)
  case Nil
  then show ?thesis by (simp add: strip_query_def)
next
  case (Cons x r')
  then show ?thesis by (cases r') (auto simp: strip_query_def)
qed

lemma drop2_strip:
  "take 2 r = ''//'' \<Longrightarrow> drop 2 (strip_query r) = strip_query (drop 2 r)"
proof (cases r)
  case Nil
  then show ?thesis by (simp add: strip_query_def)
next
  case (Cons x r')
  assume "take 2 r = ''//''"
  with Cons show ?thesis by (cases r') (auto simp: strip_query_def)
qed

lemma netloc_strip:
  "takeWhile (\<lambda>c. \<not> netloc_delim c) (strip_query r) = takeWhile (\<lambda>c. \<not> netloc_delim c) r"
  unfolding strip_query_def
  by (rule takeWhile_absorb) (simp add: netloc_delim_def)

lemma after_netloc_strip:
  "dropWhile (\<lambda>c. \<not> netloc_delim c) (strip_query r)
     = strip_query (dropWhile (\<lambda>c. \<not> netloc_delim c) r)"
  unfolding strip_query_def
  by (rule dropWhile_takeWhile_commute) (simp add: netloc_delim_def)

lemma path_part_strip:
  "takeWhile (\<lambda>c. c \<noteq> CHR ''?'') (takeWhile P (strip_query xs))
     = takeWhile (\<lambda>c. c \<noteq> CHR ''?'') (takeWhile P xs)"
  unfolding strip_query_def by (induction xs) auto

lemma urlparse_path_strip: "urlparse_path L (strip_query e) = urlparse_path L e"
proof -
  obtain scheme url1 where sp: "split_scheme (clean_url e) = (scheme, url1)"
    by (cases "split_scheme (clean_url e)")
  then have sp': "split_scheme (clean_url (strip_query e)) = (scheme, strip_query url1)"
    by (simp add: clean_url_strip split_scheme_strip)
  show ?thesis
  proof (cases "take 2 url1 = ''//''")
    case True
    then have t: "take 2 (strip_query url1) = ''//''" by (simp add: take2_strip)
    show ?thesis
      unfolding urlparse_path_def sp sp'
      using True t
      by (simp add: Let_def drop2_strip netloc_strip after_netloc_strip path_part_strip
          del: take_Suc_Cons)
  next
    case False
    then have t: "take 2 (strip_query url1) \<noteq> ''//''" by (simp add: take2_strip)
    show ?thesis
      unfolding urlparse_path_def sp sp'
      using False t
      by (simp add: Let_def path_part_strip)
  qed
qed


lemma set_splitparams_path: "set (splitparams_path u) \<subseteq> set u"
proof -
  have "set (take n u) \<subseteq> set u" for n by (rule set_take_subset)
  moreover have "set (takeWhile P (rev (takeWhile Q (rev u)))) \<subseteq> set u" for P Q
    by (auto dest!: set_takeWhileD)
  moreover have "set (butlast u) \<subseteq> set u" by (auto dest: in_set_butlastD)
  moreover have "set (takeWhile P u) \<subseteq> set u" for P by (auto dest: set_takeWhileD)
  ultimately show ?thesis
    unfolding splitparams_path_def Let_def by (simp add: subset_iff)
qed

lemma urlparse_path_no_query:
  assumes "urlparse_path L e = Inr path"
  shows "CHR ''?'' \<notin> set path"
proof -
  obtain u where u: "CHR ''?'' \<notin> set u" and p: "path = u \<or> path = splitparams_path u"
  proof -
    obtain scheme url1 where sp: "split_scheme (clean_url e) = (scheme, url1)"
      by (cases "split_scheme (clean_url e)")
    define url2 where "url2 = (if take 2 url1 = ''//''
        then dropWhile (\<lambda>c. \<not> netloc_delim c) (drop 2 url1) else url1)"
    define u where "u = takeWhile (\<lambda>c. c \<noteq> CHR ''?'') (takeWhile (\<lambda>c. c \<noteq> CHR ''#'') url2)"
    have "CHR ''?'' \<notin> set u" unfolding u_def by (auto dest: set_takeWhileD)
    moreover have "path = u \<or> path = splitparams_path u"
      using assms unfolding urlparse_path_def sp u_def url2_def
      by (auto simp: Let_def split: if_splits)
    ultimately show ?thesis using that by blast
  qed
  then show ?thesis using set_splitparams_path [of u] by auto
qed

lemma get_headers_strip:
  "get_headers L c now_ms salt meth (strip_query endpoint) = get_headers L c now_ms salt meth endpoint"
  by (simp add: get_headers_def urlparse_path_strip)

lemma get_headers_signature:
  "urlparse_path L endpoint = Inr path \<Longrightarrow>
   get_headers L c now_ms salt meth endpoint =
     Inr [(''Content-Type'', Text ''application/json''),
          (''KALSHI-ACCESS-KEY'', Text (api_key_id c)),
          (''KALSHI-ACCESS-SIGNATURE'',
             Base64 (RSA_PSS_SHA256 (private_key c) salt
                       (sign_message (str_int now_ms) meth (''/trade-api/v2'' @ path)))),
          (''KALSHI-ACCESS-TIMESTAMP'', Text (str_int now_ms))]"
  by (simp add: get_headers_def sign_request_def Let_def)

lemma sync_call_sends:
  "get_headers L c (clock E (length st)) (salts E (length st)) meth endpoint = Inr h \<Longrightarrow>
   snd (sync_call L c E meth endpoint body st) =
     st @ [\<lparr>req_method = meth, req_url = api_base c @ endpoint, req_headers = h,
            req_content = body, req_timeout = None\<rparr>]"
  by (simp add: sync_call_def Let_def split: outcome.splits)

lemma sign_message_timestamp:
  "sign_message ts1 meth path = sign_message ts2 meth path \<longleftrightarrow> ts1 = ts2"
  by (simp add: sign_message_def)

text \<open>
  Claim C5, as stated, has the signing of \<^verbatim>\<open>GET /markets?status=open\<close> produce the
  identical signature as the signing of \<^verbatim>\<open>GET /markets\<close> at the same timestamp. The two
  calls sign the same message, but \<^verbatim>\<open>_sign_request\<close> pads with PSS, which draws a fresh
  salt at every call: with salts 5 and 6 the two signatures differ.
\<close>

theorem fresh_salt_counterexample:
  "get_headers py311 demo_client 1700000000123 5 ''GET'' ''/markets?status=open''
     = Inr [(''Content-Type'', Text ''application/json''),
            (''KALSHI-ACCESS-KEY'', Text ''key-1''),
            (''KALSHI-ACCESS-SIGNATURE'',
               Base64 (RSA_PSS_SHA256 7 5 ''1700000000123GET/trade-api/v2/markets'')),
            (''KALSHI-ACCESS-TIMESTAMP'', Text ''1700000000123'')]
   \<and> get_headers py311 demo_client 1700000000123 6 ''GET'' ''/markets''
     = Inr [(''Content-Type'', Text ''application/json''),
            (''KALSHI-ACCESS-KEY'', Text ''key-1''),
            (''KALSHI-ACCESS-SIGNATURE'',
               Base64 (RSA_PSS_SHA256 7 6 ''1700000000123GET/trade-api/v2/markets'')),
            (''KALSHI-ACCESS-TIMESTAMP'', Text ''1700000000123'')]
   \<and> Base64 (RSA_PSS_SHA256 7 5 ''1700000000123GET/trade-api/v2/markets'')
     \<noteq> Base64 (RSA_PSS_SHA256 7 6 ''1700000000123GET/trade-api/v2/markets'')"
proof -
  have p: "urlparse_path py311 ''/markets?status=open'' = Inr ''/markets''"
    "urlparse_path py311 ''/markets'' = Inr ''/markets''"
    by (simp_all add: urlparse_path_def py311_def clean_url_def split_scheme_def Let_def
        c0_control_or_space_def unsafe_url_byte_def)
  have t: "str_int 1700000000123 = ''1700000000123''"
    by (simp add: str_int_def str_nat.simps digit_char_def)
  show ?thesis
    by (simp add: get_headers_signature [OF p(1)] get_headers_signature [OF p(2)] t
        demo_client_def sign_message_def)
qed

text \<open>
  Claim C5, amended. For every endpoint and every fixed timestamp the message signed for
  the endpoint is the message signed for the endpoint without its query string:
  timestamp, method, \<^verbatim>\<open>/trade-api/v2\<close> and the parsed path, which has no \<^verbatim>\<open>?\<close> in it. The two
  signings send the same key and timestamp headers and a signature of that one message,
  and the signatures (and so the headers) are identical exactly when the padding draws the
  same salt. The request itself goes to the base URL followed by the whole endpoint, query
  string included.
\<close>

theorem query_string_not_in_signed_message:
  "urlparse_path L (strip_query endpoint) = urlparse_path L endpoint \<and>
   (urlparse_path L endpoint = Inr path \<longrightarrow>
      CHR ''?'' \<notin> set path \<and>
      get_headers L c now_ms salt1 meth endpoint =
        Inr [(''Content-Type'', Text ''application/json''),
             (''KALSHI-ACCESS-KEY'', Text (api_key_id c)),
             (''KALSHI-ACCESS-SIGNATURE'',
                Base64 (RSA_PSS_SHA256 (private_key c) salt1
                          (sign_message (str_int now_ms) meth (''/trade-api/v2'' @ path)))),
             (''KALSHI-ACCESS-TIMESTAMP'', Text (str_int now_ms))] \<and>
      get_headers L c now_ms salt2 meth (strip_query endpoint) =
        Inr [(''Content-Type'', Text ''application/json''),
             (''KALSHI-ACCESS-KEY'', Text (api_key_id c)),
             (''KALSHI-ACCESS-SIGNATURE'',
                Base64 (RSA_PSS_SHA256 (private_key c) salt2
                          (sign_message (str_int now_ms) meth (''/trade-api/v2'' @ path)))),
             (''KALSHI-ACCESS-TIMESTAMP'', Text (str_int now_ms))] \<and>
      (get_headers L c now_ms salt1 meth endpoint
         = get_headers L c now_ms salt2 meth (strip_query endpoint) \<longleftrightarrow> salt1 = salt2)) \<and>
   (get_headers L c (clock E (length st)) (salts E (length st)) ''GET'' endpoint = Inr h \<longrightarrow>
      snd (get L c E endpoint st) =
        st @ [\<lparr>req_method = ''GET'', req_url = api_base c @ endpoint, req_headers = h,
               req_content = None, req_timeout = None\<rparr>])"
proof (intro conjI impI)
  show "urlparse_path L (strip_query endpoint) = urlparse_path L endpoint"
    by (rule urlparse_path_strip)
next
  assume p: "urlparse_path L endpoint = Inr path"
  then show "CHR ''?'' \<notin> set path" by (rule urlparse_path_no_query)
  from p have q: "urlparse_path L (strip_query endpoint) = Inr path"
    by (simp add: urlparse_path_strip)
  show 1: "get_headers L c now_ms salt1 meth endpoint =
        Inr [(''Content-Type'', Text ''application/json''),
             (''KALSHI-ACCESS-KEY'', Text (api_key_id c)),
             (''KALSHI-ACCESS-SIGNATURE'',
                Base64 (RSA_PSS_SHA256 (private_key c) salt1
                          (sign_message (str_int now_ms) meth (''/trade-api/v2'' @ path)))),
             (''KALSHI-ACCESS-TIMESTAMP'', Text (str_int now_ms))]"
    using p by (rule get_headers_signature)
  show 2: "get_headers L c now_ms salt2 meth (strip_query endpoint) =
        Inr [(''Content-Type'', Text ''application/json''),
             (''KALSHI-ACCESS-KEY'', Text (api_key_id c)),
             (''KALSHI-ACCESS-SIGNATURE'',
                Base64 (RSA_PSS_SHA256 (private_key c) salt2
                          (sign_message (str_int now_ms) meth (''/trade-api/v2'' @ path)))),
             (''KALSHI-ACCESS-TIMESTAMP'', Text (str_int now_ms))]"
    using q by (rule get_headers_signature)
  show "get_headers L c now_ms salt1 meth endpoint
         = get_headers L c now_ms salt2 meth (strip_query endpoint) \<longleftrightarrow> salt1 = salt2"
    unfolding 1 2 by auto
next
  assume "get_headers L c (clock E (length st)) (salts E (length st)) ''GET'' endpoint = Inr h"
  then show "snd (get L c E endpoint st) =
        st @ [\<lparr>req_method = ''GET'', req_url = api_base c @ endpoint, req_headers = h,
               req_content = None, req_timeout = None\<rparr>]"
    unfolding get_def by (rule sync_call_sends)
qed

theorem query_string_not_in_signed_message_witness:
  "urlparse_path py311 ''/markets'' = urlparse_path py311 ''/markets?status=open''
   \<and> get_headers py311 demo_client 1700000000123 5 ''GET'' ''/markets?status=open''
     = Inr [(''Content-Type'', Text ''application/json''),
            (''KALSHI-ACCESS-KEY'', Text ''key-1''),
            (''KALSHI-ACCESS-SIGNATURE'',
               Base64 (RSA_PSS_SHA256 7 5 ''1700000000123GET/trade-api/v2/markets'')),
            (''KALSHI-ACCESS-TIMESTAMP'', Text ''1700000000123'')]
   \<and> get_headers py311 demo_client 1700000000123 6 ''GET'' ''/markets''
     = Inr [(''Content-Type'', Text ''application/json''),
            (''KALSHI-ACCESS-KEY'', Text ''key-1''),
            (''KALSHI-ACCESS-SIGNATURE'',
               Base64 (RSA_PSS_SHA256 7 6 ''1700000000123GET/trade-api/v2/markets'')),
            (''KALSHI-ACCESS-TIMESTAMP'', Text ''1700000000123'')]
   \<and> get_headers py311 demo_client 1700000000123 5 ''GET'' ''/markets?status=open''
     \<noteq> get_headers py311 demo_client 1700000000123 6 ''GET'' ''/markets''
   \<and> get_headers py311 demo_client 1700000000123 5 ''GET'' ''/markets?status=open''
     = get_headers py311 demo_client 1700000000123 5 ''GET'' ''/markets''
   \<and> map req_url (snd (get py311 demo_client demo_env ''/markets?status=open'' []))
     = [''https://demo-api.elections.kalshi.com/trade-api/v2/markets?status=open'']"
proof -
  have p: "urlparse_path py311 ''/markets?status=open'' = Inr ''/markets''"
    by (simp add: urlparse_path_def py311_def clean_url_def split_scheme_def Let_def
        c0_control_or_space_def unsafe_url_byte_def)
  have q: "strip_query ''/markets?status=open'' = ''/markets''"
    by (simp add: strip_query_def)
  have t: "str_int 1700000000123 = ''1700000000123''"
    by (simp add: str_int_def str_nat.simps digit_char_def)
  have e: "clock demo_env (length ([] :: sent)) = 1700000000123"
    "salts demo_env (length ([] :: sent)) = 5"
    by (simp_all add: demo_env_def)
  note inst = query_string_not_in_signed_message [where L = py311 and c = demo_client
      and now_ms = 1700000000123 and meth = "''GET''" and endpoint = "''/markets?status=open''"
      and path = "''/markets''" and E = demo_env and st = "[]"]
  from inst [where ?salt1.0 = 5 and ?salt2.0 = 6] p q
  have u: "urlparse_path py311 ''/markets'' = urlparse_path py311 ''/markets?status=open''"
    by simp
  from inst [where ?salt1.0 = 5 and ?salt2.0 = 6] p q t
  have g: "get_headers py311 demo_client 1700000000123 5 ''GET'' ''/markets?status=open''
     = Inr [(''Content-Type'', Text ''application/json''),
            (''KALSHI-ACCESS-KEY'', Text ''key-1''),
            (''KALSHI-ACCESS-SIGNATURE'',
               Base64 (RSA_PSS_SHA256 7 5 ''1700000000123GET/trade-api/v2/markets'')),
            (''KALSHI-ACCESS-TIMESTAMP'', Text ''1700000000123'')]"
    and g': "get_headers py311 demo_client 1700000000123 6 ''GET'' ''/markets''
     = Inr [(''Content-Type'', Text ''application/json''),
            (''KALSHI-ACCESS-KEY'', Text ''key-1''),
            (''KALSHI-ACCESS-SIGNATURE'',
               Base64 (RSA_PSS_SHA256 7 6 ''1700000000123GET/trade-api/v2/markets'')),
            (''KALSHI-ACCESS-TIMESTAMP'', Text ''1700000000123'')]"
    by (simp_all add: demo_client_def sign_message_def)
  from inst [where ?salt1.0 = 5 and ?salt2.0 = 6] p q
  have n: "get_headers py311 demo_client 1700000000123 5 ''GET'' ''/markets?status=open''
     \<noteq> get_headers py311 demo_client 1700000000123 6 ''GET'' ''/markets''"
    by simp
  from inst [where ?salt1.0 = 5 and ?salt2.0 = 5] p q
  have s: "get_headers py311 demo_client 1700000000123 5 ''GET'' ''/markets?status=open''
     = get_headers py311 demo_client 1700000000123 5 ''GET'' ''/markets''"
    by simp
  from inst [where ?salt1.0 = 5 and ?salt2.0 = 6 and h = "[(''Content-Type'', Text ''application/json''),
            (''KALSHI-ACCESS-KEY'', Text ''key-1''),
            (''KALSHI-ACCESS-SIGNATURE'',
               Base64 (RSA_PSS_SHA256 7 5 ''1700000000123GET/trade-api/v2/markets'')),
            (''KALSHI-ACCESS-TIMESTAMP'', Text ''1700000000123'')]"] g e
  have r: "map req_url (snd (get py311 demo_client demo_env ''/markets?status=open'' []))
     = [''https://demo-api.elections.kalshi.com/trade-api/v2/markets?status=open'']"
    by (simp add: demo_client_def)
  from u g g' n s r show ?thesis by simp
qed

text \<open>
  Claim C7. Two signings of the same method and path at different timestamps never give
  the same signature: the timestamp strings differ, the signed messages
  \<^verbatim>\<open>timestamp + method + path\<close> differ with them, and so do the signatures, whatever the
  salts.
\<close>

theorem distinct_timestamps_distinct_signatures:
  "(ts1 \<noteq> ts2 \<longrightarrow> sign_message ts1 meth path \<noteq> sign_message ts2 meth path) \<and>
   (now1 \<noteq> now2 \<longrightarrow>
      fst (sign_request c now1 salt1 meth path) \<noteq> fst (sign_request c now2 salt2 meth path) \<and>
      snd (sign_request c now1 salt1 meth path) \<noteq> snd (sign_request c now2 salt2 meth path))"
  using str_int_inj [of now1 now2]
  by (auto simp: sign_request_def Let_def sign_message_timestamp)

theorem distinct_timestamps_distinct_signatures_witness:
  "sign_request demo_client 1700000000123 5 ''GET'' ''/trade-api/v2/markets''
     = (''1700000000123'', Base64 (RSA_PSS_SHA256 7 5 ''1700000000123GET/trade-api/v2/markets''))
   \<and> sign_request demo_client 1700000000124 5 ''GET'' ''/trade-api/v2/markets''
     = (''1700000000124'', Base64 (RSA_PSS_SHA256 7 5 ''1700000000124GET/trade-api/v2/markets''))
   \<and> snd (sign_request demo_client 1700000000123 5 ''GET'' ''/trade-api/v2/markets'')
     \<noteq> snd (sign_request demo_client 1700000000124 5 ''GET'' ''/trade-api/v2/markets'')"
proof -
  have "(1700000000123 :: int) \<noteq> 1700000000124" by simp
  with distinct_timestamps_distinct_signatures [of "''1700000000123''" "''1700000000124''" "''GET''"
      "''/trade-api/v2/markets''" 1700000000123 1700000000124 demo_client 5 5]
  have "snd (sign_request demo_client 1700000000123 5 ''GET'' ''/trade-api/v2/markets'')
     \<noteq> snd (sign_request demo_client 1700000000124 5 ''GET'' ''/trade-api/v2/markets'')"
    by blast
  then show ?thesis
    by (simp add: sign_request_def Let_def sign_message_def demo_client_def str_int_def
        str_nat.simps digit_char_def)
qed

section \<open>The request loop of the asynchronous client\<close>


lemma attempt_once_retry:
  assumes "base_get_headers B (length (a_sent st)) meth endpoint = Inr h"
    and "T (length (a_sent st)) = Returns r"
    and "RETRYABLE_STATUS_CODES B (status_code r)"
    and "attempt \<noteq> max_retries c"
  shows "\<exists>st'. attempt_once B c T meth endpoint data attempt prev st = Retry (Some r) st'
           \<and> a_sent st' = a_sent st @ [sent_request c meth endpoint data h]
           \<and> slept st' = slept st @ [compute_backoff B attempt (header_get (resp_headers r) ''Retry-After'')]"
  using assms
  by (cases "rate_limiter c") (simp_all add: attempt_once_def Let_def sent_request_def)

lemma attempt_once_return:
  assumes "base_get_headers B (length (a_sent st)) meth endpoint = Inr h"
    and "T (length (a_sent st)) = Returns r"
    and "\<not> RETRYABLE_STATUS_CODES B (status_code r)"
  shows "\<exists>st'. attempt_once B c T meth endpoint data attempt prev st = Done (Inr r) st'
           \<and> a_sent st' = a_sent st @ [sent_request c meth endpoint data h]
           \<and> slept st' = slept st"
  using assms
  by (cases "rate_limiter c") (simp_all add: attempt_once_def Let_def sent_request_def)

lemma attempt_once_exhausted_429:
  assumes "base_get_headers B (length (a_sent st)) meth endpoint = Inr h"
    and "T (length (a_sent st)) = Returns r"
    and "RETRYABLE_STATUS_CODES B (status_code r)"
    and "status_code r = 429"
    and "attempt = max_retries c"
  shows "\<exists>st'. attempt_once B c T meth endpoint data attempt prev st
             = Done (Inl (RateLimitError 429 ''Rate limit exceeded after retries'' meth endpoint)) st'
           \<and> a_sent st' = a_sent st @ [sent_request c meth endpoint data h]
           \<and> slept st' = slept st"
  using assms
  by (cases "rate_limiter c") (simp_all add: attempt_once_def Let_def sent_request_def)

lemma request_loop_retry:
  assumes "attempt < max_retries c + 1"
    and "attempt_once B c T meth endpoint data attempt prev st = Retry prev' st'"
  shows "request_loop B c T meth endpoint data attempt prev st
           = request_loop B c T meth endpoint data (attempt + 1) prev' st'"
  using assms by (subst request_loop.simps) simp

lemma request_loop_done:
  assumes "attempt < max_retries c + 1"
    and "attempt_once B c T meth endpoint data attempt prev st = Done res st'"
  shows "request_loop B c T meth endpoint data attempt prev st = (res, st')"
  using assms by (subst request_loop.simps) simp

lemma retry_then_succeed:
  assumes mr: "max_retries c = 3"
    and ret: "RETRYABLE_STATUS_CODES B 429" "\<not> RETRYABLE_STATUS_CODES B 200"
    and hs: "\<forall>k. \<exists>h. base_get_headers B k meth endpoint = Inr h"
    and T: "T (length (a_sent st)) = Returns r1" "T (length (a_sent st) + 1) = Returns r2"
      "T (length (a_sent st) + 2) = Returns r3"
    and sc: "status_code r1 = 429" "status_code r2 = 429" "status_code r3 = 200"
  shows "\<exists>st' h1 h2 h3. request B c T meth endpoint data st = (Inr r3, st')
     \<and> a_sent st' = a_sent st @ [sent_request c meth endpoint data h1,
           sent_request c meth endpoint data h2, sent_request c meth endpoint data h3]
     \<and> slept st' = slept st @ [compute_backoff B 0 (header_get (resp_headers r1) ''Retry-After''),
           compute_backoff B 1 (header_get (resp_headers r2) ''Retry-After'')]"
proof -
  from hs obtain h1 where h1: "base_get_headers B (length (a_sent st)) meth endpoint = Inr h1"
    by blast
  from attempt_once_retry [of B st meth endpoint h1 T r1 0 c data None] h1 T(1) ret sc mr
  obtain st1 where s1: "attempt_once B c T meth endpoint data 0 None st = Retry (Some r1) st1"
    "a_sent st1 = a_sent st @ [sent_request c meth endpoint data h1]"
    "slept st1 = slept st @ [compute_backoff B 0 (header_get (resp_headers r1) ''Retry-After'')]"
    by auto
  have l1: "length (a_sent st1) = length (a_sent st) + 1" using s1 by simp
  from hs obtain h2 where h2: "base_get_headers B (length (a_sent st1)) meth endpoint = Inr h2"
    by blast
  from attempt_once_retry [of B st1 meth endpoint h2 T r2 1 c data "Some r1"] h2 T(2) l1 ret sc mr
  obtain st2 where s2: "attempt_once B c T meth endpoint data 1 (Some r1) st1 = Retry (Some r2) st2"
    "a_sent st2 = a_sent st1 @ [sent_request c meth endpoint data h2]"
    "slept st2 = slept st1 @ [compute_backoff B 1 (header_get (resp_headers r2) ''Retry-After'')]"
    by auto
  have l2: "length (a_sent st2) = length (a_sent st) + 2" using s2 l1 by simp
  from hs obtain h3 where h3: "base_get_headers B (length (a_sent st2)) meth endpoint = Inr h3"
    by blast
  from attempt_once_return [of B st2 meth endpoint h3 T r3 c data 2 "Some r2"] h3 T(3) l2 ret sc
  obtain st3 where s3: "attempt_once B c T meth endpoint data 2 (Some r2) st2 = Done (Inr r3) st3"
    "a_sent st3 = a_sent st2 @ [sent_request c meth endpoint data h3]"
    "slept st3 = slept st2"
    by auto
  have "request B c T meth endpoint data st
      = request_loop B c T meth endpoint data 1 (Some r1) st1"
    unfolding request_def using request_loop_retry [of 0 c B T meth endpoint data None st "Some r1" st1] s1(1) mr by simp
  also have "\<dots> = request_loop B c T meth endpoint data 2 (Some r2) st2"
    using request_loop_retry [of 1 c B T meth endpoint data "Some r1" st1 "Some r2" st2] s2(1) mr by simp
  also have "\<dots> = (Inr r3, st3)"
    using request_loop_done [of 2 c B T meth endpoint data "Some r2" st2 "Inr r3" st3] s3(1) mr by simp
  finally have "request B c T meth endpoint data st = (Inr r3, st3)" .
  moreover have "a_sent st3 = a_sent st @ [sent_request c meth endpoint data h1,
           sent_request c meth endpoint data h2, sent_request c meth endpoint data h3]"
    using s1 s2 s3 by simp
  moreover have "slept st3 = slept st @ [compute_backoff B 0 (header_get (resp_headers r1) ''Retry-After''),
           compute_backoff B 1 (header_get (resp_headers r2) ''Retry-After'')]"
    using s1 s2 s3 by simp
  ultimately show ?thesis by blast
qed

lemma always_429:
  assumes ret: "RETRYABLE_STATUS_CODES B 429"
    and hs: "\<forall>k. \<exists>h. base_get_headers B k meth endpoint = Inr h"
    and T: "\<forall>k. \<exists>r. T k = Returns r \<and> status_code r = 429"
  shows "attempt \<le> max_retries c \<Longrightarrow> nat (max_retries c - attempt) = m \<Longrightarrow>
     \<exists>st' qs. request_loop B c T meth endpoint data attempt prev st
         = (Inl (RateLimitError 429 ''Rate limit exceeded after retries'' meth endpoint), st')
       \<and> a_sent st' = a_sent st @ qs \<and> length qs = m + 1
       \<and> (\<forall>q \<in> set qs. req_method q = meth \<and> req_url q = a_api_base c @ endpoint)
       \<and> length (slept st') = length (slept st) + m"
proof (induction m arbitrary: attempt prev st)
  case 0
  then have last: "attempt = max_retries c" by simp
  from hs obtain h where h: "base_get_headers B (length (a_sent st)) meth endpoint = Inr h" by blast
  from T obtain r where r: "T (length (a_sent st)) = Returns r" "status_code r = 429" by blast
  from attempt_once_exhausted_429 [of B st meth endpoint h T r attempt c data prev] h last ret r
  obtain st' where s: "attempt_once B c T meth endpoint data attempt prev st
             = Done (Inl (RateLimitError 429 ''Rate limit exceeded after retries'' meth endpoint)) st'"
    "a_sent st' = a_sent st @ [sent_request c meth endpoint data h]" "slept st' = slept st"
    by auto
  have "request_loop B c T meth endpoint data attempt prev st
         = (Inl (RateLimitError 429 ''Rate limit exceeded after retries'' meth endpoint), st')"
    using request_loop_done [of attempt c B T meth endpoint data prev st _ st'] s(1) last by simp
  then show ?case using s by (simp add: sent_request_def)
next
  case (Suc m)
  then have lt: "attempt < max_retries c" "attempt \<noteq> max_retries c" by auto
  from hs obtain h where h: "base_get_headers B (length (a_sent st)) meth endpoint = Inr h" by blast
  from T obtain r where r: "T (length (a_sent st)) = Returns r" "status_code r = 429" by blast
  from attempt_once_retry [of B st meth endpoint h T r attempt c data prev] h lt(2) ret r
  obtain st1 where s: "attempt_once B c T meth endpoint data attempt prev st = Retry (Some r) st1"
    "a_sent st1 = a_sent st @ [sent_request c meth endpoint data h]"
    "slept st1 = slept st @ [compute_backoff B attempt (header_get (resp_headers r) ''Retry-After'')]"
    by auto
  have step: "request_loop B c T meth endpoint data attempt prev st
      = request_loop B c T meth endpoint data (attempt + 1) (Some r) st1"
    using request_loop_retry [of attempt c B T meth endpoint data prev st "Some r" st1] s(1) lt by simp
  from Suc.prems lt have "attempt + 1 \<le> max_retries c" "nat (max_retries c - (attempt + 1)) = m"
    by auto
  from Suc.IH [OF this, of "Some r" st1]
  obtain st' qs where r': "request_loop B c T meth endpoint data (attempt + 1) (Some r) st1
         = (Inl (RateLimitError 429 ''Rate limit exceeded after retries'' meth endpoint), st')"
    "a_sent st' = a_sent st1 @ qs" "length qs = m + 1"
    "\<forall>q \<in> set qs. req_method q = meth \<and> req_url q = a_api_base c @ endpoint"
    "length (slept st') = length (slept st1) + m"
    by blast
  let ?qs = "sent_request c meth endpoint data h # qs"
  have "a_sent st' = a_sent st @ ?qs" using r'(2) s(2) by simp
  moreover have "length ?qs = Suc m + 1" using r'(3) by simp
  moreover have "\<forall>q \<in> set ?qs. req_method q = meth \<and> req_url q = a_api_base c @ endpoint"
    using r'(4) by (simp add: sent_request_def)
  moreover have "length (slept st') = length (slept st) + Suc m" using r'(5) s(3) by simp
  ultimately show ?case using step r'(1) by (intro exI [of _ st'] exI [of _ ?qs]) simp
qed


lemma demo_headers:
  "\<exists>h. base_get_headers demo_base k meth ''/markets'' = Inr h"
proof -
  have "urlparse_path py311 ''/markets'' = Inr ''/markets''"
    by (simp add: urlparse_path_def py311_def clean_url_def split_scheme_def Let_def
        c0_control_or_space_def unsafe_url_byte_def)
  then show ?thesis
    by (simp add: demo_base_def get_headers_signature)
qed

lemma handled_Inr: "handled B meth endpoint rb (Inr r, st) = (base_handle_response B r meth endpoint rb, st)"
  by (simp add: handled_def)

lemma handled_Inl: "handled B meth endpoint rb (Inl e, st) = (Inl e, st)"
  by (simp add: handled_def)

lemma handled_snd: "snd (handled B meth endpoint rb res) = snd res"
  by (simp add: handled_def split: prod.splits sum.splits)

text \<open>
  Claim C3. With the maximum number of retries set to 3, if the transport answers 429 to
  the first two calls and 200 to the third, the request loop returns that third response,
  whose body is what the handler is then given, and the loop has issued exactly three HTTP
  calls, all for the same method and URL, sleeping the backoff of attempts 0 and 1 in
  between.
\<close>

theorem request_returns_after_two_429:
  assumes "max_retries c = 3"
    and "RETRYABLE_STATUS_CODES B 429" and "\<not> RETRYABLE_STATUS_CODES B 200"
    and "\<forall>k. \<exists>h. base_get_headers B k meth endpoint = Inr h"
    and "T (length (a_sent st)) = Returns r1" and "T (length (a_sent st) + 1) = Returns r2"
    and "T (length (a_sent st) + 2) = Returns r3"
    and "status_code r1 = 429" and "status_code r2 = 429" and "status_code r3 = 200"
  shows "fst (request B c T meth endpoint data st) = Inr r3
    \<and> length (a_sent (snd (request B c T meth endpoint data st))) = length (a_sent st) + 3
    \<and> take (length (a_sent st)) (a_sent (snd (request B c T meth endpoint data st))) = a_sent st
    \<and> (\<forall>q \<in> set (drop (length (a_sent st)) (a_sent (snd (request B c T meth endpoint data st)))).
          req_method q = meth \<and> req_url q = a_api_base c @ endpoint)
    \<and> slept (snd (request B c T meth endpoint data st))
        = slept st @ [compute_backoff B 0 (header_get (resp_headers r1) ''Retry-After''),
                      compute_backoff B 1 (header_get (resp_headers r2) ''Retry-After'')]
    \<and> fst (handled B meth endpoint request_body (request B c T meth endpoint data st))
        = base_handle_response B r3 meth endpoint request_body"
proof -
  from retry_then_succeed [OF assms, of data]
  obtain st' h1 h2 h3 where r: "request B c T meth endpoint data st = (Inr r3, st')"
    and s: "a_sent st' = a_sent st @ [sent_request c meth endpoint data h1,
           sent_request c meth endpoint data h2, sent_request c meth endpoint data h3]"
    and w: "slept st' = slept st @ [compute_backoff B 0 (header_get (resp_headers r1) ''Retry-After''),
           compute_backoff B 1 (header_get (resp_headers r2) ''Retry-After'')]"
    by blast
  show ?thesis unfolding r using s w by (simp add: handled_Inr sent_request_def)
qed

theorem request_returns_after_two_429_witness:
  "fst (request demo_base demo_aclient transport_429_429_200 ''GET'' ''/markets'' None astate0)
     = Inr resp_200_markets
   \<and> length (a_sent (snd (request demo_base demo_aclient transport_429_429_200 ''GET'' ''/markets''
         None astate0))) = 3
   \<and> slept (snd (request demo_base demo_aclient transport_429_429_200 ''GET'' ''/markets''
         None astate0)) = [1, 1]
   \<and> fst (aget demo_base demo_aclient transport_429_429_200 ''/markets'' astate0)
     = Inr (JObj [(''markets'', JArr [])])"
proof -
  have c: "max_retries demo_aclient = 3" by (simp add: demo_aclient_def)
  have r: "RETRYABLE_STATUS_CODES demo_base 429" "\<not> RETRYABLE_STATUS_CODES demo_base 200"
    by (simp_all add: demo_base_def retryable_spec_def)
  have h: "\<forall>k. \<exists>h. base_get_headers demo_base k ''GET'' ''/markets'' = Inr h"
    using demo_headers by blast
  have t: "transport_429_429_200 (length (a_sent astate0)) = Returns resp_429"
    "transport_429_429_200 (length (a_sent astate0) + 1) = Returns resp_429"
    "transport_429_429_200 (length (a_sent astate0) + 2) = Returns resp_200_markets"
    by (simp_all add: transport_429_429_200_def astate0_def)
  have s: "status_code resp_429 = 429" "status_code resp_200_markets = 200"
    by (simp_all add: resp_429_def resp_200_markets_def)
  have g: "header_get (resp_headers resp_429) ''Retry-After'' = Some ''1''"
    by (simp add: header_get_def resp_429_def lower_char_def ascii_upper_def)
  have b: "compute_backoff demo_base a (Some ''1'') = 1" for a
    by (simp add: demo_base_def spec_backoff_def ascii_digit_def digits_value_def)
  have j: "base_handle_response demo_base resp_200_markets ''GET'' ''/markets'' None
      = Inr (JObj [(''markets'', JArr [])])"
    by (simp add: demo_base_def spec_handle_response_def resp_200_markets_def)
  from request_returns_after_two_429 [OF c r h t s(1) s(1) s(2), of None None]
  show ?thesis by (simp add: g b j aget_def astate0_def)
qed

text \<open>
  Claim C4. With the maximum number of retries set to 2, if the transport answers 429 to
  every call, the request loop raises the rate-limit error after exactly three HTTP calls
  (one attempt and two retries), and the error carries the method and the endpoint of the
  request.
\<close>

theorem request_raises_rate_limit_error:
  assumes "max_retries c = 2"
    and "RETRYABLE_STATUS_CODES B 429"
    and "\<forall>k. \<exists>h. base_get_headers B k meth endpoint = Inr h"
    and "\<forall>k. \<exists>r. T k = Returns r \<and> status_code r = 429"
  shows "fst (request B c T meth endpoint data st)
       = Inl (RateLimitError 429 ''Rate limit exceeded after retries'' meth endpoint)
    \<and> exn_method (projl (fst (request B c T meth endpoint data st))) = meth
    \<and> exn_endpoint (projl (fst (request B c T meth endpoint data st))) = endpoint
    \<and> length (a_sent (snd (request B c T meth endpoint data st))) = length (a_sent st) + 3
    \<and> take (length (a_sent st)) (a_sent (snd (request B c T meth endpoint data st))) = a_sent st
    \<and> (\<forall>q \<in> set (drop (length (a_sent st)) (a_sent (snd (request B c T meth endpoint data st)))).
          req_method q = meth \<and> req_url q = a_api_base c @ endpoint)
    \<and> length (slept (snd (request B c T meth endpoint data st))) = length (slept st) + 2
    \<and> fst (handled B meth endpoint request_body (request B c T meth endpoint data st))
        = Inl (RateLimitError 429 ''Rate limit exceeded after retries'' meth endpoint)"
proof -
  from always_429 [OF assms(2,3,4), of 0 c 2 data None st] assms(1)
  obtain st' qs where r: "request B c T meth endpoint data st
         = (Inl (RateLimitError 429 ''Rate limit exceeded after retries'' meth endpoint), st')"
    and s: "a_sent st' = a_sent st @ qs" "length qs = 3"
      "\<forall>q \<in> set qs. req_method q = meth \<and> req_url q = a_api_base c @ endpoint"
      "length (slept st') = length (slept st) + 2"
    unfolding request_def by auto
  show ?thesis unfolding r using s by (simp add: handled_Inl)
qed


theorem request_raises_rate_limit_error_witness:
  "fst (request demo_base (demo_aclient\<lparr>max_retries := 2\<rparr>) transport_always_429 ''GET''
          ''/markets?status=open'' None astate0)
     = Inl (RateLimitError 429 ''Rate limit exceeded after retries'' ''GET'' ''/markets?status=open'')
   \<and> length (a_sent (snd (request demo_base (demo_aclient\<lparr>max_retries := 2\<rparr>)
         transport_always_429 ''GET'' ''/markets?status=open'' None astate0))) = 3"
proof -
  have c: "max_retries (demo_aclient\<lparr>max_retries := 2\<rparr>) = 2" by simp
  have r: "RETRYABLE_STATUS_CODES demo_base 429"
    by (simp add: demo_base_def retryable_spec_def)
  have "urlparse_path py311 ''/markets?status=open'' = Inr ''/markets''"
    by (simp add: urlparse_path_def py311_def clean_url_def split_scheme_def Let_def
        c0_control_or_space_def unsafe_url_byte_def)
  then have h: "\<forall>k. \<exists>h. base_get_headers demo_base k ''GET'' ''/markets?status=open'' = Inr h"
    by (simp add: demo_base_def get_headers_signature)
  have t: "\<forall>k. \<exists>r. transport_always_429 k = Returns r \<and> status_code r = 429"
    by (simp add: transport_always_429_def resp_429_def)
  from request_raises_rate_limit_error [OF c r h t, of None astate0 None]
  show ?thesis by (simp add: astate0_def)
qed


subsection \<open>The synchronous pipeline and the asynchronous loop\<close>







section \<open>The pagination driver\<close>

subsection \<open>Assignment to a key\<close>






subsection \<open>The loop\<close>


lemma paginate_frame:
  assumes "paginate L0 g0 path0 rk0 fa0 a0 acc0 hs0 = Some y0"
  shows "length (fst (snd y0)) = length (fst hs0)
     \<and> (\<forall>b. b \<noteq> a0 \<longrightarrow> fst (snd y0) ! b = fst hs0 ! b)"
  using assms
proof (rule paginate.raw_induct [rotated, where P = "\<lambda>L g path rk fa a acc hs y.
    length (fst (snd y)) = length (fst hs) \<and> (\<forall>b. b \<noteq> a \<longrightarrow> fst (snd y) ! b = fst hs ! b)"],
    goal_cases)
  case (1 f L g path rk fa a acc hs y)
  note IH = 1(1) and eq = 1(2)
  obtain h s where hs: "hs = (h, s)" by (cases hs)
  obtain res s' where g: "g (page_endpoint L path (h ! a)) s = (res, s')"
    by (cases "g (page_endpoint L path (h ! a)) s")
  show ?case
  proof (cases res)
    case (Inl e)
    with eq hs g show ?thesis by auto
  next
    case (Inr response)
    show ?thesis
    proof (cases "\<exists>d. response = JObj d")
      case False
      with eq hs g Inr show ?thesis by (cases response) auto
    next
      case True
      then obtain d where d: "response = JObj d" by blast
      show ?thesis
      proof (cases "py_iter (dict_get d rk (JArr []))")
        case (Inl e)
        with eq hs g Inr d show ?thesis by auto
      next
        case items: (Inr items)
        show ?thesis
        proof (cases "\<not> fa \<or> \<not> truthy (dict_get d ''cursor'' (JStr []))")
          case True
          with eq hs g Inr d items show ?thesis by (auto simp: Let_def)
        next
          case False
          with eq hs g Inr d items
          have "f L g path rk fa a (acc @ items)
                  (h[a := dict_set (h ! a) ''cursor'' (dict_get d ''cursor'' (JStr []))], s') = Some y"
            by (auto simp: Let_def)
          from IH [OF this] hs show ?thesis by simp
        qed
      qed
    qed
  qed
qed

lemma paginated_get_frame:
  assumes "params < length h"
    and "paginated_get L g path rk params fa (h, s) = Some (res, h', s')"
  shows "take (length h) h' = h \<and> h' ! params = h ! params"
proof -
  from assms(2) have "paginate L g path rk fa (length h) [] (h @ [h ! params], s) = Some (res, h', s')"
    by (simp add: paginated_get_def)
  from paginate_frame [OF this]
  have len: "length h' = length h + 1" and same: "\<forall>b. b \<noteq> length h \<longrightarrow> h' ! b = (h @ [h ! params]) ! b"
    by simp_all
  have "take (length h) h' = h"
  proof (rule nth_equalityI)
    show "length (take (length h) h') = length h" using len by simp
  next
    fix i assume "i < length (take (length h) h')"
    then have i: "i < length h" by simp
    then show "take (length h) h' ! i = h ! i" using same by (simp add: nth_append)
  qed
  moreover have "h' ! params = h ! params" using same assms(1) by (simp add: nth_append)
  ultimately show ?thesis by simp
qed

lemma paginate_single:
  assumes "pages (length trace) = Inr (JObj d)"
    and "py_iter (dict_get d rk (JArr [])) = Inr items"
    and "\<not> fa \<or> \<not> truthy (dict_get d ''cursor'' (JStr []))"
  shows "paginate L (paged_get pages) path rk fa a acc (h, trace)
     = Some (Inr (acc @ items), h, trace @ [page_endpoint L path (h ! a)])"
  using assms by (subst paginate.simps) (auto simp: paged_get_def Let_def)

lemma paginate_next:
  assumes "pages (length trace) = Inr (JObj d)"
    and "py_iter (dict_get d rk (JArr [])) = Inr items"
    and "truthy (dict_get d ''cursor'' (JStr []))"
  shows "paginate L (paged_get pages) path rk True a acc (h, trace)
     = paginate L (paged_get pages) path rk True a (acc @ items)
         (h[a := dict_set (h ! a) ''cursor'' (dict_get d ''cursor'' (JStr []))],
          trace @ [page_endpoint L path (h ! a)])"
  using assms by (subst paginate.simps) (auto simp: paged_get_def Let_def)

lemma params_at_shift:
  "params_at d p (Suc i)
     = params_at (\<lambda>j. d (Suc j)) (dict_set p ''cursor'' (dict_get (d 0) ''cursor'' (JStr []))) i"
  by (induction i) simp_all

lemma upt_shift: "map f [0..<Suc n] = f 0 # map (\<lambda>i. f (Suc i)) [0..<n]"
  by (simp add: upt_conv_Cons map_Suc_upt [symmetric] del: upt_Suc)

lemma paginate_pages:
  assumes "\<forall>i \<le> n. pages (length trace + i) = Inr (JObj (d i))"
    and "\<forall>i \<le> n. py_iter (dict_get (d i) rk (JArr [])) = Inr (items i)"
    and "\<forall>i < n. truthy (dict_get (d i) ''cursor'' (JStr []))"
    and "\<not> truthy (dict_get (d n) ''cursor'' (JStr []))"
    and "a < length h"
  shows "paginate L (paged_get pages) path rk True a acc (h, trace)
     = Some (Inr (acc @ concat (map items [0..<Suc n])),
             h[a := params_at d (h ! a) n],
             trace @ map (\<lambda>i. page_endpoint L path (params_at d (h ! a) i)) [0..<Suc n])"
  using assms
proof (induction n arbitrary: d items acc h trace)
  case 0
  then show ?case using paginate_single [of pages trace "d 0" rk "items 0" True L path a acc h]
    by (simp add: list_update_same_conv)
next
  case (Suc n)
  let ?c = "dict_get (d 0) ''cursor'' (JStr [])"
  let ?h = "h[a := dict_set (h ! a) ''cursor'' ?c]"
  let ?trace = "trace @ [page_endpoint L path (h ! a)]"
  have p0: "pages (length trace) = Inr (JObj (d 0))"
    using Suc.prems(1) [rule_format, of 0] by simp
  have i0: "py_iter (dict_get (d 0) rk (JArr [])) = Inr (items 0)"
    using Suc.prems(2) [rule_format, of 0] by simp
  have t0: "truthy ?c" using Suc.prems(3) [rule_format, of 0] by simp
  have step: "paginate L (paged_get pages) path rk True a acc (h, trace)
     = paginate L (paged_get pages) path rk True a (acc @ items 0) (?h, ?trace)"
    using p0 i0 t0 by (rule paginate_next)
  have 1: "\<forall>i \<le> n. pages (length ?trace + i) = Inr (JObj (d (Suc i)))"
  proof (intro allI impI)
    fix i assume "i \<le> n"
    then show "pages (length ?trace + i) = Inr (JObj (d (Suc i)))"
      using Suc.prems(1) [rule_format, of "Suc i"] by simp
  qed
  have 2: "\<forall>i \<le> n. py_iter (dict_get (d (Suc i)) rk (JArr [])) = Inr (items (Suc i))"
    using Suc.prems(2) by auto
  have 3: "\<forall>i < n. truthy (dict_get (d (Suc i)) ''cursor'' (JStr []))"
    using Suc.prems(3) by auto
  have 4: "\<not> truthy (dict_get (d (Suc n)) ''cursor'' (JStr []))" using Suc.prems(4) .
  have 5: "a < length ?h" using Suc.prems(5) by simp
  have ha: "?h ! a = dict_set (h ! a) ''cursor'' ?c" using Suc.prems(5) by simp
  note IH = Suc.IH [of ?trace "\<lambda>i. d (Suc i)" "\<lambda>i. items (Suc i)" ?h "acc @ items 0", OF 1 2 3 4 5]
  show ?case
    unfolding step IH ha
    by (simp add: upt_shift [of items "Suc n"]
        upt_shift [of "\<lambda>i. page_endpoint L path (params_at d (h ! a) i)" "Suc n"]
        params_at_shift [symmetric] del: upt_Suc params_at.simps(2))
qed




lemma paginated_get_single:
  assumes "pages (length trace) = Inr (JObj d)"
    and "py_iter (dict_get d rk (JArr [])) = Inr items"
  shows "paginated_get L (paged_get pages) path rk params False (h, trace)
     = Some (Inr items, h @ [h ! params], trace @ [page_endpoint L path (h ! params)])"
  using paginate_single [where pages = pages and trace = trace and d = d and rk = rk
      and items = items and fa = False and L = L and path = path and a = "length h"
      and acc = "[]" and h = "h @ [h ! params]"] assms
  by (simp add: paginated_get_def)

lemma paginated_get_all:
  assumes "\<forall>i \<le> n. pages (length trace + i) = Inr (JObj (d i))"
    and "\<forall>i \<le> n. py_iter (dict_get (d i) rk (JArr [])) = Inr (items i)"
    and "\<forall>i < n. truthy (dict_get (d i) ''cursor'' (JStr []))"
    and "\<not> truthy (dict_get (d n) ''cursor'' (JStr []))"
  shows "paginated_get L (paged_get pages) path rk params True (h, trace)
     = Some (Inr (concat (map items [0..<Suc n])),
             h @ [params_at d (h ! params) n],
             trace @ map (\<lambda>i. page_endpoint L path (params_at d (h ! params) i)) [0..<Suc n])"
  using paginate_pages [where pages = pages and trace = trace and d = d and rk = rk
      and items = items and n = n and L = L and path = path and a = "length h"
      and acc = "[]" and h = "h @ [h ! params]"] assms
  by (simp add: paginated_get_def del: upt_Suc)





lemma demo_pages:
  "\<forall>i \<le> 1. pages_demo (length ([] :: string list) + i)
      = Inr (JObj ((\<lambda>i. if i = 0 then page_1 else page_2) i))"
  "\<forall>i \<le> 1. py_iter (dict_get ((\<lambda>i. if i = 0 then page_1 else page_2) i) ''items'' (JArr []))
      = Inr ((\<lambda>i. if i = 0 then [JStr ''A'', JStr ''B''] else [JStr ''C'']) i)"
  "\<forall>i < 1. truthy (dict_get ((\<lambda>i :: nat. if i = 0 then page_1 else page_2) i) ''cursor'' (JStr []))"
  "\<not> truthy (dict_get ((\<lambda>i :: nat. if i = 0 then page_1 else page_2) 1) ''cursor'' (JStr []))"
  by (auto simp: pages_demo_def page_1_def page_2_def dict_get_def)

lemma demo_run:
  "paginated_get py311 (paged_get pages_demo) ''/markets'' ''items'' 0 True (heap_demo, [])
     = Some (Inr [JStr ''A'', JStr ''B'', JStr ''C''],
             heap_demo @ [[(''limit'', JInt 100), (''status'', JNull), (''cursor'', JStr ''p2'')]],
             [''/markets?limit=100'', ''/markets?limit=100&cursor=p2''])"
  using paginated_get_all [where pages = pages_demo and trace = "[]" and n = 1
      and d = "\<lambda>i. if i = 0 then page_1 else page_2" and rk = "''items''"
      and items = "\<lambda>i. if i = 0 then [JStr ''A'', JStr ''B''] else [JStr ''C'']"
      and L = py311 and path = "''/markets''" and params = 0 and h = heap_demo, OF demo_pages]
  by (simp add: page_endpoint_def heap_demo_def py311_def simple_urlencode_def str_int_def
      str_nat.simps digit_char_def dict_set_def dict_get_def page_1_def)


lemma demo_run_single:
  "paginated_get py311 (paged_get pages_demo) ''/markets'' ''items'' 0 False (heap_demo, [])
     = Some (Inr [JStr ''A'', JStr ''B''],
             heap_demo @ [[(''limit'', JInt 100), (''status'', JNull)]],
             [''/markets?limit=100''])"
  using paginated_get_single [where pages = pages_demo and trace = "[]" and d = page_1
      and rk = "''items''" and items = "[JStr ''A'', JStr ''B'']" and L = py311
      and path = "''/markets''" and params = 0 and h = heap_demo]
  by (simp add: pages_demo_def page_1_def dict_get_def page_endpoint_def heap_demo_def py311_def
      simple_urlencode_def str_int_def str_nat.simps digit_char_def)



text \<open>
  Claim C10. The pagination driver never mutates the caller's dictionary: whenever a call
  returns or raises, after however many pages and with whatever \<^verbatim>\<open>get\<close>, the caller's cell
  of the store, and every other cell that existed before the call, holds what it held
  before; the one new cell is the internal copy, and the cursor is written there.
\<close>

theorem paginated_get_keeps_params:
  assumes "params < length h"
    and "paginated_get L client_get path rk params fetch_all (h, s) = Some (res, h', s')"
  shows "h' ! params = h ! params \<and> take (length h) h' = h \<and> length h' = length h + 1"
proof -
  from assms(2) have "paginate L client_get path rk fetch_all (length h) [] (h @ [h ! params], s)
      = Some (res, h', s')"
    by (simp add: paginated_get_def)
  from paginate_frame [OF this] have "length h' = length h + 1" by simp
  then show ?thesis using paginated_get_frame [OF assms] by simp
qed

theorem paginated_get_keeps_params_witness:
  "(heap_demo @ [[(''limit'', JInt 100), (''status'', JNull), (''cursor'', JStr ''p2'')]]) ! 0
     = [(''limit'', JInt 100), (''status'', JNull)]
   \<and> paginated_get py311 (paged_get pages_demo) ''/markets'' ''items'' 0 True (heap_demo, [])
     = Some (Inr [JStr ''A'', JStr ''B'', JStr ''C''],
             heap_demo @ [[(''limit'', JInt 100), (''status'', JNull), (''cursor'', JStr ''p2'')]],
             [''/markets?limit=100'', ''/markets?limit=100&cursor=p2''])"
proof -
  have l: "0 < length heap_demo" by (simp add: heap_demo_def)
  from paginated_get_keeps_params [OF l demo_run]
  have "(heap_demo @ [[(''limit'', JInt 100), (''status'', JNull), (''cursor'', JStr ''p2'')]]) ! 0
     = heap_demo ! 0"
    by simp
  then show ?thesis using demo_run by (simp add: heap_demo_def)
qed
end
